theory Spec2Isabelle
  imports Complex_Main
begin

section \<open>Data model of the measured list hook (useFixedSizeList)\<close>

text \<open>
  The hook of \<^verbatim>\<open>createItems.tsx\<close> (lines 259-436) is embedded as pure functions over an
  explicit hook state. JavaScript numbers that hold pixel quantities (heights, offsets,
  scroll positions) are idealised as \<^typ>\<open>real\<close>; indices are \<^typ>\<open>nat\<close> inside the loop and
  \<^typ>\<open>int\<close> where the source stores the sentinel \<open>-1\<close>. An optional prop is an
  \<^typ>\<open>'a option\<close>, a thrown exception is the left injection of a sum. The number of
  elements is a \<^typ>\<open>nat\<close>: \<^verbatim>\<open>new Array(elementsQuantity)\<close> accepts nothing else. The two
  layout effects that copy the height of the container and the scroll position into the
  state are the host's updates of \<open>listHeight\<close> and \<open>scrollTop\<close>.

  The source adds, multiplies and compares binary64 numbers. On whole numbers of magnitude
  at most \<open>2 ^ 53\<close> these operations are exact whenever their result is such a number
  too, and there the reals of the model compute what the source computes;
  \<open>whole_below k\<close> names the whole numbers of magnitude at most \<open>2 ^ k\<close>. A statement that
  equates a sum of heights with a product, or a quotient with its rounding, holds of the
  source only under such a bound, and carries it as a hypothesis or as a guard.
\<close>

datatype error = ConfigError | TypeError

definition whole_below :: "nat \<Rightarrow> real \<Rightarrow> bool" where
  "whole_below k x = (x = of_int \<lfloor>x\<rfloor> \<and> \<bar>x\<bar> \<le> 2 ^ k)"

record UseFixedSizeListProps =
  itemHeight :: "(int \<Rightarrow> real) option"
  elementsQuantity :: nat
  getItemKey :: "int \<Rightarrow> int"
  estimateItemHeight :: "(unit \<Rightarrow> real) option"
  scrollingDelay :: "nat option"
  overscan :: "int option"

definition DEFAULT_OVERSCAN :: int where
  "DEFAULT_OVERSCAN = 3"

definition SCROLLING_DELAY :: nat where
  "SCROLLING_DELAY = 150"

record hookState =
  listHeight :: real
  scrollTop :: real
  isScrolling :: bool
  measurementCache :: "int \<rightharpoonup> real"

record row =
  key :: int
  height :: real
  offsetTop :: real
  index :: nat

text \<open>
  An element handed to the \<^verbatim>\<open>measureElement\<close> ref callback: \<open>dataIndex\<close> is the value of
  \<^verbatim>\<open>parseInt(element.getAttribute("data-index") || "", 10)\<close>, with \<open>None\<close> for \<^verbatim>\<open>NaN\<close>, and
  \<open>rectHeight\<close> is \<^verbatim>\<open>element.getBoundingClientRect().height\<close>.
\<close>

record element =
  dataIndex :: "int option"
  rectHeight :: real

record range =
  startIndex :: int
  endIndex :: int
  totalHeight :: real

record passState = range +
  allRows :: "row option list"

record rangeResult = range +
  virtualItems :: "row option list"

subsection \<open>validateProps\<close>

definition validateProps :: "UseFixedSizeListProps \<Rightarrow> error + unit" where
  "validateProps props =
     (if itemHeight props = None \<and> estimateItemHeight props = None
      then Inl ConfigError
      else Inr ())"

subsection \<open>getItemHeight\<close>

text \<open>
  The closure \<^verbatim>\<open>getItemHeight\<close> of the range computation. The non-null assertion
  \<^verbatim>\<open>estimateItemHeight!()\<close> calls \<^verbatim>\<open>undefined\<close> when no estimate was supplied, which
  raises a TypeError.
\<close>

definition getItemHeight ::
  "UseFixedSizeListProps \<Rightarrow> (int \<rightharpoonup> real) \<Rightarrow> int \<Rightarrow> error + real" where
  "getItemHeight props cache i =
     (case itemHeight props of
        Some f \<Rightarrow> Inr (f i)
      | None \<Rightarrow>
          (case cache (getItemKey props i) of
             Some v \<Rightarrow> Inr v
           | None \<Rightarrow>
               (case estimateItemHeight props of
                  Some est \<Rightarrow> Inr (est ())
                | None \<Rightarrow> Inl TypeError)))"

subsection \<open>The range computation\<close>

text \<open>
  One iteration of the \<^verbatim>\<open>for\<close> loop, after the height of the row has been resolved:
  the row is stored, the running total grows, and each of the two indices is set the first
  time its edge condition holds (it is still the sentinel \<open>-1\<close>).
\<close>

definition loop_body ::
  "UseFixedSizeListProps \<Rightarrow> real \<Rightarrow> real \<Rightarrow> int \<Rightarrow> nat \<Rightarrow> real \<Rightarrow> passState \<Rightarrow> passState" where
  "loop_body props scrolledTopArea scrolledBottomArea ov i h st =
     (let r = \<lparr>key = getItemKey props (int i), height = h,
               offsetTop = totalHeight st, index = i\<rparr>;
          st1 = st\<lparr>allRows := (allRows st)[i := Some r]\<rparr>;
          st2 = st1\<lparr>totalHeight := totalHeight st1 + height r\<rparr>;
          st3 = (if startIndex st2 = -1 \<and> offsetTop r + height r > scrolledTopArea
                 then st2\<lparr>startIndex := max 0 (int i - ov)\<rparr> else st2);
          st4 = (if endIndex st3 = -1 \<and> offsetTop r + height r \<ge> scrolledBottomArea
                 then st3\<lparr>endIndex := min (int (elementsQuantity props) - 1) (int i + ov)\<rparr>
                 else st3)
      in st4)"

function pass_loop ::
  "UseFixedSizeListProps \<Rightarrow> (int \<rightharpoonup> real) \<Rightarrow> real \<Rightarrow> real \<Rightarrow> int \<Rightarrow> nat \<Rightarrow> passState
     \<Rightarrow> error + passState" where
  "pass_loop props cache scrolledTopArea scrolledBottomArea ov i st =
     (if i < elementsQuantity props then
        (case getItemHeight props cache (int i) of
           Inl e \<Rightarrow> Inl e
         | Inr h \<Rightarrow>
             pass_loop props cache scrolledTopArea scrolledBottomArea ov (Suc i)
               (loop_body props scrolledTopArea scrolledBottomArea ov i h st))
      else Inr st)"
  by pat_completeness auto
termination
  by (relation "measure (\<lambda>(props, cache, t, b, ov, i, st). elementsQuantity props - i)") auto

declare pass_loop.simps [simp del]

text \<open>
  \<^verbatim>\<open>Array.prototype.slice(start, end)\<close>: a negative bound counts from the end of the
  array, both bounds are clamped to the array, and an empty array results when the start
  is not before the end.
\<close>

definition js_slice :: "'a list \<Rightarrow> int \<Rightarrow> int \<Rightarrow> 'a list" where
  "js_slice xs start fin =
     (let len = int (length xs);
          k = (if start < 0 then max (len + start) 0 else min start len);
          final = (if fin < 0 then max (len + fin) 0 else min fin len)
      in take (nat (final - k)) (drop (nat k) xs))"

definition the_overscan :: "UseFixedSizeListProps \<Rightarrow> int" where
  "the_overscan props = (case overscan props of None \<Rightarrow> DEFAULT_OVERSCAN | Some v \<Rightarrow> v)"

definition initial_pass :: "UseFixedSizeListProps \<Rightarrow> passState" where
  "initial_pass props =
     \<lparr>startIndex = -1, endIndex = -1, totalHeight = 0,
      allRows = replicate (elementsQuantity props) None\<rparr>"

text \<open>The loop of the \<^verbatim>\<open>useMemo\<close> callback, from the hook state.\<close>

definition range_pass ::
  "UseFixedSizeListProps \<Rightarrow> 'a hookState_scheme \<Rightarrow> error + passState" where
  "range_pass props s =
     (let scrolledTopArea = scrollTop s;
          scrolledBottomArea = scrolledTopArea + listHeight s
      in pass_loop props (measurementCache s) scrolledTopArea scrolledBottomArea
           (the_overscan props) 0 (initial_pass props))"

definition compute_range ::
  "UseFixedSizeListProps \<Rightarrow> 'a hookState_scheme \<Rightarrow> error + rangeResult" where
  "compute_range props s =
     (case range_pass props s of
        Inl e \<Rightarrow> Inl e
      | Inr st \<Rightarrow>
          Inr \<lparr>startIndex = startIndex st, endIndex = endIndex st,
               totalHeight = totalHeight st,
               virtualItems = js_slice (allRows st) (startIndex st) (endIndex st + 1)\<rparr>)"

text \<open>The hook body: the props are validated before anything else runs.\<close>

definition useFixedSizeList ::
  "UseFixedSizeListProps \<Rightarrow> 'a hookState_scheme \<Rightarrow> error + rangeResult" where
  "useFixedSizeList props s =
     (case validateProps props of
        Inl e \<Rightarrow> Inl e
      | Inr _ \<Rightarrow> compute_range props s)"

subsection \<open>measureElement\<close>

text \<open>
  The ref callback: nothing happens for a null element or an index that does not parse;
  otherwise the measured height is stored under the key of the index.
\<close>

definition measureElement ::
  "UseFixedSizeListProps \<Rightarrow> element option \<Rightarrow> 'a hookState_scheme \<Rightarrow> 'a hookState_scheme" where
  "measureElement props el s =
     (case el of
        None \<Rightarrow> s
      | Some e \<Rightarrow>
          (case dataIndex e of
             None \<Rightarrow> s
           | Some i \<Rightarrow>
               s\<lparr>measurementCache := (measurementCache s)(getItemKey props i \<mapsto> rectHeight e)\<rparr>))"

subsection \<open>The isScrolling effect and the browser's timers\<close>

text \<open>
  The effect of lines 319-339 runs against a browser, modelled by a virtual clock and the
  table of pending one-shot timers. Every timer of this program has the same callback,
  \<^verbatim>\<open>setIsScrolling(false)\<close>, so a pending timer is its id and the time it is due;
  \<open>firedTimers\<close> logs each callback that ran, with the time. \<open>timeoutId\<close> is the variable of
  the effect's closure, \<open>scrollListener\<close> says whether \<^verbatim>\<open>handleScroll\<close> is registered on the
  scroll element, and \<open>domScrollTop\<close> is the element's \<^verbatim>\<open>scrollTop\<close> property.
\<close>

record world = hookState +
  now :: nat
  nextTimerId :: nat
  pendingTimers :: "(nat \<times> nat) list"
  firedTimers :: "(nat \<times> nat) list"
  timeoutId :: "nat option"
  scrollListener :: bool
  domScrollTop :: real

definition the_scrollingDelay :: "UseFixedSizeListProps \<Rightarrow> nat" where
  "the_scrollingDelay props =
     (case scrollingDelay props of None \<Rightarrow> SCROLLING_DELAY | Some d \<Rightarrow> d)"

definition setTimeout :: "nat \<Rightarrow> 'a world_scheme \<Rightarrow> nat \<times> 'a world_scheme" where
  "setTimeout delay w =
     (nextTimerId w,
      w\<lparr>pendingTimers := pendingTimers w @ [(nextTimerId w, now w + delay)],
        nextTimerId := Suc (nextTimerId w)\<rparr>)"

definition clearTimeout :: "nat \<Rightarrow> 'a world_scheme \<Rightarrow> 'a world_scheme" where
  "clearTimeout tid w = w\<lparr>pendingTimers := filter (\<lambda>(i, dueTime). i \<noteq> tid) (pendingTimers w)\<rparr>"

text \<open>
  \<^verbatim>\<open>handleScroll\<close> of the isScrolling effect. The closure can see the prop
  \<^verbatim>\<open>scrollingDelay\<close>, but the timer is set with the module constant.
\<close>

definition handleScroll :: "UseFixedSizeListProps \<Rightarrow> 'a world_scheme \<Rightarrow> 'a world_scheme" where
  "handleScroll props w =
     (let w1 = w\<lparr>isScrolling := True\<rparr>;
          w2 = (case timeoutId w1 of
                  None \<Rightarrow> w1
                | Some tid \<Rightarrow> if tid \<noteq> 0 then clearTimeout tid w1 else w1);
          (tid, w3) = setTimeout SCROLLING_DELAY w2
      in w3\<lparr>timeoutId := Some tid\<rparr>)"

datatype cleanup = NoCleanup | RemoveScrollListener | RemoveWindowListener

text \<open>
  The effect body; \<open>present\<close> says whether \<^verbatim>\<open>getScrollElement()\<close> returned an element.
  The result is the cleanup function the effect returns, if any.
\<close>

definition isScrollingEffect ::
  "UseFixedSizeListProps \<Rightarrow> bool \<Rightarrow> 'a world_scheme \<Rightarrow> cleanup \<times> 'a world_scheme" where
  "isScrollingEffect props present w =
     (if \<not> present then (NoCleanup, w)
      else (RemoveScrollListener, w\<lparr>timeoutId := None, scrollListener := True\<rparr>))"

text \<open>
  Running a cleanup function. \<open>RemoveScrollListener\<close> is
  \<^verbatim>\<open>scrollingElement.removeEventListener("scroll", handleScroll)\<close>;
  \<open>RemoveWindowListener\<close> is \<^verbatim>\<open>window.removeEventListener("scroll", handleScroll)\<close> of the
  fixed-size hook below, which leaves the listeners of the scroll element as they are.
\<close>

definition runCleanup :: "cleanup \<Rightarrow> 'a world_scheme \<Rightarrow> 'a world_scheme" where
  "runCleanup c w =
     (case c of
        NoCleanup \<Rightarrow> w
      | RemoveScrollListener \<Rightarrow> w\<lparr>scrollListener := False\<rparr>
      | RemoveWindowListener \<Rightarrow> w)"

text \<open>The browser dispatches a scroll event to the registered listener.\<close>

definition scrollEvent :: "UseFixedSizeListProps \<Rightarrow> 'a world_scheme \<Rightarrow> 'a world_scheme" where
  "scrollEvent props w = (if scrollListener w then handleScroll props w else w)"

text \<open>
  Time passes: every pending timer that is due by the new time is removed from the table
  and its callback \<^verbatim>\<open>setIsScrolling(false)\<close> runs.
\<close>

definition advance :: "nat \<Rightarrow> 'a world_scheme \<Rightarrow> 'a world_scheme" where
  "advance d w =
     (let t = now w + d;
          due = filter (\<lambda>(i, dueTime). dueTime \<le> t) (pendingTimers w)
      in w\<lparr>now := t,
           pendingTimers := filter (\<lambda>(i, dueTime). \<not> dueTime \<le> t) (pendingTimers w),
           firedTimers := firedTimers w @ due,
           isScrolling := (if due = [] then isScrolling w else False)\<rparr>)"

text \<open>The state of a freshly mounted hook (the \<^verbatim>\<open>useState\<close> initial values).\<close>

definition initialWorld :: world where
  "initialWorld =
     \<lparr>listHeight = 0, scrollTop = 0, isScrolling = False, measurementCache = Map.empty,
      now = 0, nextTimerId = 1, pendingTimers = [], firedTimers = [], timeoutId = None,
      scrollListener = False, domScrollTop = 0\<rparr>"

section \<open>The earlier revision of the hook: one height function without arguments\<close>

text \<open>
  Lines 47-159 of \<^verbatim>\<open>createItems.tsx\<close>: \<^verbatim>\<open>itemHeight\<close> is required and takes no argument,
  rows have no key, and there is no measurement cache. The hook destructures its props
  in the parameter list, so the model takes them as separate arguments.
\<close>

record row0 =
  height0 :: real
  offsetTop0 :: real
  index0 :: nat

record passState0 = range +
  allRows0 :: "row0 option list"

record rangeResult0 = range +
  virtualItems0 :: "row0 option list"

definition loop_body0 ::
  "(unit \<Rightarrow> real) \<Rightarrow> nat \<Rightarrow> real \<Rightarrow> real \<Rightarrow> int \<Rightarrow> nat \<Rightarrow> passState0 \<Rightarrow> passState0" where
  "loop_body0 itemHeight0 elementsQuantity0 scrolledTopArea scrolledBottomArea ov i st =
     (let r = \<lparr>height0 = itemHeight0 (), offsetTop0 = totalHeight st, index0 = i\<rparr>;
          st1 = st\<lparr>allRows0 := (allRows0 st)[i := Some r]\<rparr>;
          st2 = st1\<lparr>totalHeight := totalHeight st1 + height0 r\<rparr>;
          st3 = (if startIndex st2 = -1 \<and> offsetTop0 r + height0 r > scrolledTopArea
                 then st2\<lparr>startIndex := max 0 (int i - ov)\<rparr> else st2);
          st4 = (if endIndex st3 = -1 \<and> offsetTop0 r + height0 r \<ge> scrolledBottomArea
                 then st3\<lparr>endIndex := min (int elementsQuantity0 - 1) (int i + ov)\<rparr>
                 else st3)
      in st4)"

function pass_loop0 ::
  "(unit \<Rightarrow> real) \<Rightarrow> nat \<Rightarrow> real \<Rightarrow> real \<Rightarrow> int \<Rightarrow> nat \<Rightarrow> passState0 \<Rightarrow> passState0" where
  "pass_loop0 itemHeight0 elementsQuantity0 scrolledTopArea scrolledBottomArea ov i st =
     (if i < elementsQuantity0 then
        pass_loop0 itemHeight0 elementsQuantity0 scrolledTopArea scrolledBottomArea ov (Suc i)
          (loop_body0 itemHeight0 elementsQuantity0 scrolledTopArea scrolledBottomArea ov i st)
      else st)"
  by pat_completeness auto
termination
  by (relation "measure (\<lambda>(f, n, t, b, ov, i, st). n - i)") auto

declare pass_loop0.simps [simp del]

definition useFixedSizeList0 ::
  "(unit \<Rightarrow> real) \<Rightarrow> nat \<Rightarrow> int option \<Rightarrow> real \<Rightarrow> real \<Rightarrow> rangeResult0" where
  "useFixedSizeList0 itemHeight0 elementsQuantity0 overscan0 scrollTop0 listHeight0 =
     (let ov = (case overscan0 of None \<Rightarrow> DEFAULT_OVERSCAN | Some v \<Rightarrow> v);
          scrolledTopArea = scrollTop0;
          scrolledBottomArea = scrolledTopArea + listHeight0;
          st = pass_loop0 itemHeight0 elementsQuantity0 scrolledTopArea scrolledBottomArea ov 0
                 \<lparr>startIndex = -1, endIndex = -1, totalHeight = 0,
                  allRows0 = replicate elementsQuantity0 None\<rparr>
      in \<lparr>startIndex = startIndex st, endIndex = endIndex st, totalHeight = totalHeight st,
          virtualItems0 = js_slice (allRows0 st) (startIndex st) (endIndex st + 1)\<rparr>)"

section \<open>The fixed-size hook (useFixedListSize)\<close>

text \<open>
  The hook of the second source file. Its range is computed from the scroll position by
  arithmetic alone, in the callback of a \<^verbatim>\<open>useMemo\<close>; \<open>fixedRange\<close> is that callback, with
  the length of the state \<^verbatim>\<open>list\<close> as a parameter. \<^verbatim>\<open>Math.round\<close> rounds half up, as
  \<^const>\<open>round\<close> does. The source divides binary64 numbers before it rounds: when the
  element height and the dividend are whole numbers and the dividend is at most \<open>2 ^ 51\<close>
  in magnitude, the error of the quotient is less than its distance from the next
  half, and the rounded quotient of the reals is the one of the source. The model returns
  \<open>None\<close> for every other input, among them \<^verbatim>\<open>elementHeight = 0\<close>, where the quotients
  are \<^verbatim>\<open>NaN\<close> or infinite, and for an end index whose offset is not exact.
\<close>

definition DEFAULT_SCROLLING_DELAY :: nat where
  "DEFAULT_SCROLLING_DELAY = 100"

record virtualItem =
  itemOffsetTop :: real
  itemId :: int
  itemContent :: int

record fixedListResult = range +
  fixedItems :: "virtualItem list"

definition fixedRange ::
  "real \<Rightarrow> int \<Rightarrow> nat \<Rightarrow> real \<Rightarrow> (int \<times> int \<times> virtualItem list) option" where
  "fixedRange elementHeight ov listLength scrollTop1 =
     (let CONTAINER_HEIGHT = elementHeight * elementHeight;
          RANGE_START = scrollTop1;
          RANGE_END = scrollTop1 + CONTAINER_HEIGHT;
          START_INDEX = round (RANGE_START / elementHeight);
          END_INDEX = round (RANGE_END / elementHeight);
          START_INDEX' = max 0 (START_INDEX - ov);
          END_INDEX' = min (int listLength) (END_INDEX + ov)
      in if elementHeight \<noteq> 0 \<and> whole_below 51 elementHeight \<and> whole_below 51 RANGE_START
            \<and> whole_below 51 CONTAINER_HEIGHT \<and> whole_below 51 RANGE_END
            \<and> whole_below 53 (real_of_int END_INDEX' * elementHeight)
         then Some (START_INDEX', END_INDEX',
                    map (\<lambda>i. \<lparr>itemOffsetTop = real_of_int i * elementHeight, itemId = i,
                               itemContent = i\<rparr>)
                      [START_INDEX'..END_INDEX'])
         else None)"

text \<open>
  The hook itself. The dependencies of the memo are the scroll position and the list, not
  the element height or the overscan: \<open>memo\<close> is what the previous render left, the
  dependencies with the value computed for them (\<open>None\<close> at the first render), and the
  callback runs only when the dependencies differ. The list of the hook never changes,
  and its length stands for it among the dependencies. The total height is computed at
  every render.
\<close>

type_synonym fixedMemo = "(real \<times> nat) \<times> (int \<times> int \<times> virtualItem list)"

definition useFixedListSize ::
  "real \<Rightarrow> nat \<Rightarrow> int option \<Rightarrow> nat \<Rightarrow> real \<Rightarrow> fixedMemo option
     \<Rightarrow> fixedListResult option" where
  "useFixedListSize elementHeight elementQuantity overscan1 listLength scrollTop1 memo =
     (let ov = (case overscan1 of None \<Rightarrow> DEFAULT_OVERSCAN | Some v \<Rightarrow> v);
          memoized =
            (case memo of
               None \<Rightarrow> fixedRange elementHeight ov listLength scrollTop1
             | Some (deps, v) \<Rightarrow>
                 if deps = (scrollTop1, listLength) then Some v
                 else fixedRange elementHeight ov listLength scrollTop1);
          total = elementHeight * real elementQuantity
      in case memoized of
           None \<Rightarrow> None
         | Some (START_INDEX, END_INDEX, items) \<Rightarrow>
             if whole_below 53 elementHeight \<and> whole_below 53 total
             then Some \<lparr>startIndex = START_INDEX, endIndex = END_INDEX,
                       totalHeight = total, fixedItems = items\<rparr>
             else None)"

text \<open>
  The scroll handler of this hook reads the scroll position and sets the timer with the
  \<^verbatim>\<open>scrollingDelay\<close> it was given; the effect calls the handler once when it mounts, and
  its cleanup removes a listener from \<^verbatim>\<open>window\<close>.
\<close>

definition handleScroll1 :: "nat option \<Rightarrow> 'a world_scheme \<Rightarrow> 'a world_scheme" where
  "handleScroll1 scrollingDelay1 w =
     (let w0 = w\<lparr>scrollTop := domScrollTop w\<rparr>;
          w1 = w0\<lparr>isScrolling := True\<rparr>;
          w2 = (case timeoutId w1 of
                  None \<Rightarrow> w1
                | Some tid \<Rightarrow> if tid \<noteq> 0 then clearTimeout tid w1 else w1);
          (tid, w3) = setTimeout
                        (case scrollingDelay1 of None \<Rightarrow> DEFAULT_SCROLLING_DELAY | Some d \<Rightarrow> d) w2
      in w3\<lparr>timeoutId := Some tid\<rparr>)"

definition scrollEffect1 ::
  "nat option \<Rightarrow> bool \<Rightarrow> 'a world_scheme \<Rightarrow> cleanup \<times> 'a world_scheme" where
  "scrollEffect1 scrollingDelay1 present w =
     (if \<not> present then (NoCleanup, w)
      else (RemoveWindowListener,
            (handleScroll1 scrollingDelay1 (w\<lparr>timeoutId := None\<rparr>))\<lparr>scrollListener := True\<rparr>))"

definition scrollEvent1 :: "nat option \<Rightarrow> 'a world_scheme \<Rightarrow> 'a world_scheme" where
  "scrollEvent1 scrollingDelay1 w = (if scrollListener w then handleScroll1 scrollingDelay1 w else w)"

section \<open>The fast path as the specification words it\<close>

text \<open>
  The constant-time range of the specification for a uniform height, written from its
  formulas: the floor of the scroll offset over the height, less the overscan and clamped
  at zero; the ceiling of the viewport's bottom over the height, plus the overscan and
  clamped at the last index; the item count times the height.
\<close>

definition fast_path_spec :: "nat \<Rightarrow> real \<Rightarrow> real \<Rightarrow> real \<Rightarrow> int \<Rightarrow> range" where
  "fast_path_spec itemCount h scrollOffset viewportSize ov =
     \<lparr>startIndex = max 0 (\<lfloor>scrollOffset / h\<rfloor> - ov),
      endIndex = min (int itemCount - 1) (\<lceil>(scrollOffset + viewportSize) / h\<rceil> + ov),
      totalHeight = real itemCount * h\<rparr>"

definition summary :: "'a range_scheme \<Rightarrow> int \<times> int \<times> real" where
  "summary r = (startIndex r, endIndex r, totalHeight r)"

section \<open>Auxiliary notions for the proofs\<close>

text \<open>
  The loop after \<open>k\<close> iterations for a height function \<open>h\<close>, the bottom edge of row \<open>j\<close>,
  and the row the loop stores at index \<open>j\<close>.
\<close>

definition run_pass ::
  "UseFixedSizeListProps \<Rightarrow> real \<Rightarrow> real \<Rightarrow> int \<Rightarrow> (nat \<Rightarrow> real) \<Rightarrow> nat \<Rightarrow> passState" where
  "run_pass props t b ov h k =
     fold (\<lambda>j. loop_body props t b ov j (h j)) [0..<k] (initial_pass props)"

definition bottomEdge :: "(nat \<Rightarrow> real) \<Rightarrow> nat \<Rightarrow> real" where
  "bottomEdge h j = (\<Sum>i<j. h i) + h j"

definition row_at :: "UseFixedSizeListProps \<Rightarrow> (nat \<Rightarrow> real) \<Rightarrow> nat \<Rightarrow> row" where
  "row_at props h j =
     \<lparr>key = getItemKey props (int j), height = h j, offsetTop = (\<Sum>i<j. h i), index = j\<rparr>"

section \<open>The loop as a left-to-right pass\<close>

lemma getItemHeight_valid:
  "validateProps props = Inr () \<Longrightarrow> \<exists>v. getItemHeight props cache i = Inr v"
  by (auto simp: validateProps_def getItemHeight_def split: option.splits if_splits)

lemma heights_resolve:
  assumes "validateProps props = Inr ()"
  obtains h where "\<And>j. getItemHeight props cache (int j) = Inr (h j)"
proof -
  have "\<forall>j. \<exists>v. getItemHeight props cache (int j) = Inr v"
    using getItemHeight_valid[OF assms] by blast
  then obtain h where "\<forall>j. getItemHeight props cache (int j) = Inr (h j)"
    by (rule choice[THEN exE])
  then show thesis using that by blast
qed

lemma pass_loop_fold:
  assumes "\<And>j. j < elementsQuantity props \<Longrightarrow> getItemHeight props cache (int j) = Inr (h j)"
  shows "pass_loop props cache t b ov i st =
         Inr (fold (\<lambda>j. loop_body props t b ov j (h j)) [i..<elementsQuantity props] st)"
  using assms
proof (induction props cache t b ov i st rule: pass_loop.induct)
  case (1 props cache t b ov i st)
  show ?case
  proof (cases "i < elementsQuantity props")
    case True
    then have g: "getItemHeight props cache (int i) = Inr (h i)" using 1(2) by simp
    have "pass_loop props cache t b ov i st =
          pass_loop props cache t b ov (Suc i) (loop_body props t b ov i (h i) st)"
      using True g by (subst pass_loop.simps) simp
    also have "\<dots> = Inr (fold (\<lambda>j. loop_body props t b ov j (h j)) [Suc i..<elementsQuantity props]
                        (loop_body props t b ov i (h i) st))"
      using 1(1)[OF True g] 1(2) by simp
    finally show ?thesis using True by (simp add: upt_rec[of i])
  next
    case False
    then show ?thesis by (subst pass_loop.simps) simp
  qed
qed

lemma range_pass_run_pass:
  assumes "\<And>j. j < elementsQuantity props \<Longrightarrow>
             getItemHeight props (measurementCache s) (int j) = Inr (h j)"
  shows "range_pass props s =
         Inr (run_pass props (scrollTop s) (scrollTop s + listHeight s) (the_overscan props) h
                (elementsQuantity props))"
  using pass_loop_fold[of props "measurementCache s" h, OF assms]
  by (simp add: range_pass_def run_pass_def Let_def)

lemma run_pass_0: "run_pass props t b ov h 0 = initial_pass props"
  by (simp add: run_pass_def)

lemma run_pass_Suc:
  "run_pass props t b ov h (Suc k) = loop_body props t b ov k (h k) (run_pass props t b ov h k)"
  by (simp add: run_pass_def)

lemma totalHeight_run_pass: "totalHeight (run_pass props t b ov h k) = (\<Sum>j<k. h j)"
  by (induction k) (simp_all add: run_pass_0 run_pass_Suc initial_pass_def loop_body_def Let_def)

lemma find_snoc:
  "List.find P (xs @ [x]) =
     (case List.find P xs of Some y \<Rightarrow> Some y | None \<Rightarrow> if P x then Some x else None)"
  by (induction xs) auto

lemma startIndex_run_pass:
  "startIndex (run_pass props t b ov h k) =
     (case List.find (\<lambda>j. t < bottomEdge h j) [0..<k] of
        None \<Rightarrow> -1 | Some j \<Rightarrow> max 0 (int j - ov))"
proof (induction k)
  case 0
  show ?case by (simp add: run_pass_0 initial_pass_def)
next
  case (Suc k)
  show ?case
    using Suc totalHeight_run_pass[of props t b ov h k]
    by (auto simp: run_pass_Suc loop_body_def Let_def find_snoc bottomEdge_def split: option.splits)
qed

lemma endIndex_run_pass:
  assumes "0 \<le> ov" "k \<le> elementsQuantity props"
  shows "endIndex (run_pass props t b ov h k) =
     (case List.find (\<lambda>j. b \<le> bottomEdge h j) [0..<k] of
        None \<Rightarrow> -1 | Some j \<Rightarrow> min (int (elementsQuantity props) - 1) (int j + ov))"
  using assms(2)
proof (induction k)
  case 0
  show ?case by (simp add: run_pass_0 initial_pass_def)
next
  case (Suc k)
  then have IH: "endIndex (run_pass props t b ov h k) =
     (case List.find (\<lambda>j. b \<le> bottomEdge h j) [0..<k] of
        None \<Rightarrow> -1 | Some j \<Rightarrow> min (int (elementsQuantity props) - 1) (int j + ov))" by simp
  show ?case
    using IH Suc(2) assms(1) totalHeight_run_pass[of props t b ov h k]
    by (auto simp: run_pass_Suc loop_body_def Let_def find_snoc bottomEdge_def split: option.splits)
qed

lemma allRows_run_pass:
  assumes "k \<le> elementsQuantity props"
  shows "allRows (run_pass props t b ov h k) =
           map (\<lambda>j. Some (row_at props h j)) [0..<k] @ replicate (elementsQuantity props - k) None"
  using assms
proof (induction k)
  case 0
  show ?case by (simp add: run_pass_0 initial_pass_def)
next
  case (Suc k)
  then have IH: "allRows (run_pass props t b ov h k) =
           map (\<lambda>j. Some (row_at props h j)) [0..<k] @ replicate (elementsQuantity props - k) None"
    by simp
  have rep: "replicate (elementsQuantity props - k) (None :: row option) =
             None # replicate (elementsQuantity props - Suc k) None"
    using Suc(2) by (simp add: Suc_diff_Suc flip: replicate_Suc)
  have upd: "allRows (run_pass props t b ov h (Suc k)) =
             (allRows (run_pass props t b ov h k))[k := Some (row_at props h k)]"
    using totalHeight_run_pass[of props t b ov h k]
    by (simp add: run_pass_Suc loop_body_def Let_def row_at_def)
  show ?case
    unfolding upd IH rep by (simp add: list_update_append)
qed

lemma allRows_final:
  "allRows (run_pass props t b ov h (elementsQuantity props)) =
     map (\<lambda>j. Some (row_at props h j)) [0..<elementsQuantity props]"
  by (simp add: allRows_run_pass)

lemma find_upt_SomeI:
  assumes "j < n" "P j" "\<And>i. i < j \<Longrightarrow> \<not> P i"
  shows "List.find P [0..<n] = Some j"
  using assms by (auto simp: find_Some_iff)

lemma find_upt_NoneI:
  assumes "\<And>i. i < n \<Longrightarrow> \<not> P i"
  shows "List.find P [0..<n] = None"
  using assms by (auto simp: find_None_iff)

lemma find_upt_SomeD:
  assumes "List.find P [0..<n] = Some j"
  shows "j < n \<and> P j \<and> (\<forall>i<j. \<not> P i)"
  using assms by (auto simp: find_Some_iff)

lemma find_upt_ex:
  assumes "j < n" "P j"
  shows "\<exists>i. List.find P [0..<n] = Some i"
proof (cases "List.find P [0..<n]")
  case None
  then show ?thesis using assms by (auto simp: find_None_iff)
next
  case (Some i)
  then show ?thesis by blast
qed

section \<open>Configuration errors\<close>

lemma compute_range_valid:
  assumes "validateProps props = Inr ()"
  shows "\<exists>res. compute_range props s = Inr res"
proof -
  obtain h where "\<And>j. getItemHeight props (measurementCache s) (int j) = Inr (h j)"
    using heights_resolve[OF assms] by blast
  then show ?thesis
    by (simp add: compute_range_def range_pass_run_pass[of props s h])
qed

text \<open>
  Claim C7. Setup throws the configuration error exactly when neither the item-height
  function nor the estimate function is supplied. With at least one of them validation
  passes, and the hook then returns a range and raises no error at all.
\<close>

theorem validateProps_throws_iff:
  "(validateProps props = Inl ConfigError) =
     (itemHeight props = None \<and> estimateItemHeight props = None)
   \<and> (useFixedSizeList props s = Inl ConfigError) =
     (itemHeight props = None \<and> estimateItemHeight props = None)
   \<and> (if itemHeight props = None \<and> estimateItemHeight props = None
      then useFixedSizeList props s = Inl ConfigError
      else validateProps props = Inr () \<and> (\<exists>res. useFixedSizeList props s = Inr res))"
proof -
  have a: "(validateProps props = Inl ConfigError) =
     (itemHeight props = None \<and> estimateItemHeight props = None)"
    by (simp add: validateProps_def)
  have b: "useFixedSizeList props s = Inl ConfigError"
    if "itemHeight props = None \<and> estimateItemHeight props = None"
    using that by (simp add: useFixedSizeList_def validateProps_def)
  have c: "validateProps props = Inr () \<and> (\<exists>res. useFixedSizeList props s = Inr res)"
    if "\<not> (itemHeight props = None \<and> estimateItemHeight props = None)"
  proof -
    have v: "validateProps props = Inr ()" using that by (simp add: validateProps_def)
    then show ?thesis using compute_range_valid[OF v, of s] by (simp add: useFixedSizeList_def)
  qed
  have d: "(useFixedSizeList props s = Inl ConfigError) =
     (itemHeight props = None \<and> estimateItemHeight props = None)"
    using b c by (cases "itemHeight props = None \<and> estimateItemHeight props = None") auto
  show ?thesis using a b c d by simp
qed

theorem validateProps_throws_iff_witness:
  "validateProps \<lparr>itemHeight = None, elementsQuantity = 2, getItemKey = (\<lambda>i. i),
      estimateItemHeight = None, scrollingDelay = None, overscan = None\<rparr> = Inl ConfigError
   \<and> validateProps \<lparr>itemHeight = None, elementsQuantity = 2, getItemKey = (\<lambda>i. i),
      estimateItemHeight = Some (\<lambda>_. 16), scrollingDelay = None, overscan = None\<rparr> = Inr ()
   \<and> (\<exists>res. useFixedSizeList \<lparr>itemHeight = None, elementsQuantity = 2, getItemKey = (\<lambda>i. i),
      estimateItemHeight = Some (\<lambda>_. 16), scrollingDelay = None, overscan = None\<rparr> initialWorld
        = Inr res)"
  using validateProps_throws_iff[of "\<lparr>itemHeight = None, elementsQuantity = 2, getItemKey = (\<lambda>i. i),
      estimateItemHeight = None, scrollingDelay = None, overscan = None\<rparr>" initialWorld]
    validateProps_throws_iff[of "\<lparr>itemHeight = None, elementsQuantity = 2, getItemKey = (\<lambda>i. i),
      estimateItemHeight = Some (\<lambda>_. 16), scrollingDelay = None, overscan = None\<rparr>" initialWorld]
  by simp

section \<open>Offsets are prefix sums of the heights\<close>

lemma set_js_slice: "set (js_slice xs a b) \<subseteq> set xs"
proof -
  have "set (take m (drop k xs)) \<subseteq> set xs" for m k
    using set_take_subset[of m "drop k xs"] set_drop_subset[of k xs] by blast
  then show ?thesis by (simp add: js_slice_def Let_def)
qed

lemma range_pass_rows:
  assumes "\<And>j. j < elementsQuantity props \<Longrightarrow>
             getItemHeight props (measurementCache s) (int j) = Inr (h j)"
  shows "\<exists>st. range_pass props s = Inr st
          \<and> allRows st = map (\<lambda>j. Some (row_at props h j)) [0..<elementsQuantity props]
          \<and> totalHeight st = (\<Sum>j<elementsQuantity props. h j)"
  by (simp add: range_pass_run_pass[of props s h, OF assms] allRows_final totalHeight_run_pass)

text \<open>
  Claim C3. In every pass the row stored at index \<open>i\<close> has as its \<open>offsetTop\<close> the sum of
  the heights of the rows before it, so the first offset is zero and each further one is
  the previous offset plus the previous height; the total height is the sum of all
  heights. The rows handed to the host are rows of this table. Here \<open>h j\<close> is the
  height the resolver returns for index \<open>j\<close>.
\<close>

theorem offsetTop_is_prefix_sum:
  assumes "validateProps props = Inr ()"
  shows "\<exists>st res h.
           range_pass props s = Inr st \<and> compute_range props s = Inr res
         \<and> (\<forall>j. getItemHeight props (measurementCache s) (int j) = Inr (h j))
         \<and> length (allRows st) = elementsQuantity props
         \<and> (\<forall>i<elementsQuantity props.
               allRows st ! i =
                 Some \<lparr>key = getItemKey props (int i), height = h i,
                       offsetTop = (\<Sum>j<i. h j), index = i\<rparr>)
         \<and> totalHeight st = (\<Sum>j<elementsQuantity props. h j)
         \<and> totalHeight res = (\<Sum>j<elementsQuantity props. h j)
         \<and> (\<forall>r. Some r \<in> set (virtualItems res) \<longrightarrow>
               index r < elementsQuantity props \<and> height r = h (index r)
               \<and> offsetTop r = (\<Sum>j<index r. h j))"
proof -
  obtain h where h: "\<And>j. getItemHeight props (measurementCache s) (int j) = Inr (h j)"
    using heights_resolve[OF assms] by blast
  obtain st where st: "range_pass props s = Inr st"
      "allRows st = map (\<lambda>j. Some (row_at props h j)) [0..<elementsQuantity props]"
      "totalHeight st = (\<Sum>j<elementsQuantity props. h j)"
    using range_pass_rows[of props s h] h by blast
  define res where "res = \<lparr>startIndex = startIndex st, endIndex = endIndex st,
               totalHeight = totalHeight st,
               virtualItems = js_slice (allRows st) (startIndex st) (endIndex st + 1)\<rparr>"
  have res: "compute_range props s = Inr res"
    by (simp add: compute_range_def st(1) res_def)
  have rows: "allRows st ! i = Some \<lparr>key = getItemKey props (int i), height = h i,
                       offsetTop = (\<Sum>j<i. h j), index = i\<rparr>"
    if "i < elementsQuantity props" for i
    using that by (simp add: st(2) row_at_def)
  have items: "index r < elementsQuantity props \<and> height r = h (index r)
               \<and> offsetTop r = (\<Sum>j<index r. h j)"
    if "Some r \<in> set (virtualItems res)" for r
  proof -
    have "Some r \<in> set (allRows st)"
      using that set_js_slice[of "allRows st"] by (auto simp: res_def)
    then obtain i where "i < elementsQuantity props" "r = row_at props h i"
      by (auto simp: st(2))
    then show ?thesis by (simp add: row_at_def)
  qed
  have "length (allRows st) = elementsQuantity props" by (simp add: st(2))
  moreover have "totalHeight res = (\<Sum>j<elementsQuantity props. h j)"
    by (simp add: res_def st(3))
  ultimately show ?thesis
    using st(1) st(3) res h rows items by blast
qed

theorem offsetTop_is_prefix_sum_witness:
  "validateProps \<lparr>itemHeight = Some (\<lambda>i. if i = 1 then 30 else 20), elementsQuantity = 3,
      getItemKey = (\<lambda>i. i), estimateItemHeight = None, scrollingDelay = None,
      overscan = None\<rparr> = Inr ()
   \<and> (\<exists>st res (h :: nat \<Rightarrow> real).
         range_pass \<lparr>itemHeight = Some (\<lambda>i. if i = 1 then 30 else 20), elementsQuantity = 3,
           getItemKey = (\<lambda>i. i), estimateItemHeight = None, scrollingDelay = None,
           overscan = None\<rparr> initialWorld = Inr st
       \<and> compute_range \<lparr>itemHeight = Some (\<lambda>i. if i = 1 then 30 else 20), elementsQuantity = 3,
           getItemKey = (\<lambda>i. i), estimateItemHeight = None, scrollingDelay = None,
           overscan = None\<rparr> initialWorld = Inr res
       \<and> h 0 = 20 \<and> h 1 = 30 \<and> h 2 = 20
       \<and> allRows st ! 2 = Some \<lparr>key = 2, height = 20, offsetTop = 50, index = 2\<rparr>
       \<and> totalHeight res = 70)"
proof -
  let ?p = "\<lparr>itemHeight = Some (\<lambda>i. if i = 1 then 30 else (20::real)), elementsQuantity = 3,
      getItemKey = (\<lambda>i. i), estimateItemHeight = None, scrollingDelay = None,
      overscan = None\<rparr>"
  have v: "validateProps ?p = Inr ()" by (simp add: validateProps_def)
  obtain st res h where *:
      "range_pass ?p initialWorld = Inr st" "compute_range ?p initialWorld = Inr res"
      "\<forall>j. getItemHeight ?p (measurementCache initialWorld) (int j) = Inr (h j)"
      "\<forall>i<elementsQuantity ?p. allRows st ! i =
         Some \<lparr>key = getItemKey ?p (int i), height = h i, offsetTop = (\<Sum>j<i. h j), index = i\<rparr>"
      "totalHeight res = (\<Sum>j<elementsQuantity ?p. h j)"
    using offsetTop_is_prefix_sum[OF v, of initialWorld] by blast
  have h: "h j = (if j = 1 then 30 else 20)" for j
    using *(3)[rule_format, of j] by (simp add: getItemHeight_def)
  have r2: "allRows st ! 2 = Some \<lparr>key = 2, height = 20, offsetTop = 50, index = 2\<rparr>"
    using *(4)[rule_format, of 2] by (simp add: h eval_nat_numeral lessThan_Suc)
  have tot: "totalHeight res = 70"
    using *(5) by (simp add: h eval_nat_numeral lessThan_Suc)
  have hs: "h 0 = 20" "h 1 = 30" "h 2 = 20" by (simp_all add: h)
  have "range_pass ?p initialWorld = Inr st \<and> compute_range ?p initialWorld = Inr res
       \<and> h 0 = 20 \<and> h 1 = 30 \<and> h 2 = 20
       \<and> allRows st ! 2 = Some \<lparr>key = 2, height = 20, offsetTop = 50, index = 2\<rparr>
       \<and> totalHeight res = 70"
    using *(1,2) hs r2 tot by simp
  then show ?thesis using v by blast
qed

section \<open>The indices of a pass\<close>

lemma compute_range_indices:
  assumes "\<And>j. j < elementsQuantity props \<Longrightarrow>
             getItemHeight props (measurementCache s) (int j) = Inr (h j)"
    and "0 \<le> the_overscan props"
  shows "\<exists>res. compute_range props s = Inr res
          \<and> totalHeight res = (\<Sum>j<elementsQuantity props. h j)
          \<and> startIndex res =
              (case List.find (\<lambda>j. scrollTop s < bottomEdge h j) [0..<elementsQuantity props] of
                 None \<Rightarrow> -1 | Some j \<Rightarrow> max 0 (int j - the_overscan props))
          \<and> endIndex res =
              (case List.find (\<lambda>j. scrollTop s + listHeight s \<le> bottomEdge h j)
                      [0..<elementsQuantity props] of
                 None \<Rightarrow> -1
               | Some j \<Rightarrow> min (int (elementsQuantity props) - 1) (int j + the_overscan props))
          \<and> virtualItems res =
              js_slice (map (\<lambda>j. Some (row_at props h j)) [0..<elementsQuantity props])
                (startIndex res) (endIndex res + 1)"
  using assms(2)
  by (simp add: compute_range_def range_pass_run_pass[of props s h, OF assms(1)]
      totalHeight_run_pass startIndex_run_pass endIndex_run_pass allRows_final)

lemma bottomEdge_const: "bottomEdge (\<lambda>_. c) j = real (Suc j) * c"
  by (simp add: bottomEdge_def algebra_simps)

lemma find_top_const:
  assumes "0 < c" "0 \<le> t" "t < real n * c"
  shows "List.find (\<lambda>j. t < bottomEdge (\<lambda>_. c) j) [0..<n] = Some (nat \<lfloor>t / c\<rfloor>)"
proof (rule find_upt_SomeI)
  have q: "0 \<le> t / c" using assms by simp
  have fl: "real (nat \<lfloor>t / c\<rfloor>) \<le> t / c" using q by simp
  have lt: "t / c < real n" using assms by (simp add: pos_divide_less_eq)
  then have "\<lfloor>t / c\<rfloor> < int n" by (simp add: floor_less_iff)
  then show "nat \<lfloor>t / c\<rfloor> < n" using q by linarith
  have "t / c < real (Suc (nat \<lfloor>t / c\<rfloor>))" using q by simp linarith
  then show "t < bottomEdge (\<lambda>_. c) (nat \<lfloor>t / c\<rfloor>)"
    using assms(1) by (simp only: bottomEdge_const pos_divide_less_eq)
  show "\<not> t < bottomEdge (\<lambda>_. c) i" if "i < nat \<lfloor>t / c\<rfloor>" for i
  proof -
    have "real (Suc i) \<le> real (nat \<lfloor>t / c\<rfloor>)" using that by simp
    then have "real (Suc i) \<le> t / c" using fl by linarith
    then have "real (Suc i) * c \<le> t" using assms(1) by (simp only: pos_le_divide_eq)
    then show ?thesis by (simp only: bottomEdge_const not_less)
  qed
qed

lemma find_top_const_None:
  assumes "0 < c" "real n * c \<le> t"
  shows "List.find (\<lambda>j. t < bottomEdge (\<lambda>_. c) j) [0..<n] = None"
proof (rule find_upt_NoneI)
  fix i assume "i < n"
  then have "real (Suc i) \<le> real n" by simp
  then have "real (Suc i) * c \<le> real n * c" using assms(1) by (simp only: mult_le_cancel_right_pos)
  then show "\<not> t < bottomEdge (\<lambda>_. c) i" using assms(2) unfolding bottomEdge_const by linarith
qed

lemma find_bottom_const:
  assumes "0 < c" "0 < b" "b \<le> real n * c"
  shows "List.find (\<lambda>j. b \<le> bottomEdge (\<lambda>_. c) j) [0..<n] = Some (nat (\<lceil>b / c\<rceil> - 1))"
proof (rule find_upt_SomeI)
  have q: "0 < b / c" using assms by simp
  then have c1: "1 \<le> \<lceil>b / c\<rceil>" by (simp add: less_ceiling_iff) 
  have suc: "real (Suc (nat (\<lceil>b / c\<rceil> - 1))) = of_int \<lceil>b / c\<rceil>" using c1 by simp
  have le: "b / c \<le> real n" using assms by (simp add: pos_divide_le_eq)
  then have "\<lceil>b / c\<rceil> \<le> int n" by (simp add: ceiling_le_iff)
  then show "nat (\<lceil>b / c\<rceil> - 1) < n" using c1 by linarith
  have "b / c \<le> real (Suc (nat (\<lceil>b / c\<rceil> - 1)))" unfolding suc by (rule le_of_int_ceiling)
  then show "b \<le> bottomEdge (\<lambda>_. c) (nat (\<lceil>b / c\<rceil> - 1))"
    using assms(1) by (simp only: bottomEdge_const pos_divide_le_eq)
  show "\<not> b \<le> bottomEdge (\<lambda>_. c) i" if "i < nat (\<lceil>b / c\<rceil> - 1)" for i
  proof -
    have "int (Suc i) < \<lceil>b / c\<rceil>" using that by linarith
    then have "real (Suc i) < b / c" by (simp only: less_ceiling_iff of_int_of_nat_eq)
    then have "real (Suc i) * c < b" using assms(1) by (simp only: pos_less_divide_eq)
    then show ?thesis by (simp only: bottomEdge_const not_le)
  qed
qed

lemma find_bottom_const_None:
  assumes "0 < c" "real n * c < b"
  shows "List.find (\<lambda>j. b \<le> bottomEdge (\<lambda>_. c) j) [0..<n] = None"
proof (rule find_upt_NoneI)
  fix i assume "i < n"
  then have "real (Suc i) \<le> real n" by simp
  then have "real (Suc i) * c \<le> real n * c" using assms(1) by (simp only: mult_le_cancel_right_pos)
  then show "\<not> b \<le> bottomEdge (\<lambda>_. c) i" using assms(2) unfolding bottomEdge_const by linarith
qed

section \<open>Bounds of the returned indices\<close>

text \<open>
  Claim C1 at two inputs the hooks receive. A single row of height 10 in a viewport of
  height 20: no row reaches the bottom edge of the viewport, the clamp inside the edge
  test never runs, and the end index is the sentinel \<open>-1\<close>, below the start index 0. The
  fixed-size hook with its list of 10000 items of height 35, scrolled to the end of a
  container of 25 rows (offset 349125): the end index is clamped at the length of the
  list and is 10000, one above the last index.
\<close>

theorem index_bounds_violated:
  "useFixedSizeList
     \<lparr>itemHeight = Some (\<lambda>_. 10), elementsQuantity = 1, getItemKey = (\<lambda>i. i),
      estimateItemHeight = None, scrollingDelay = None, overscan = None\<rparr>
     (initialWorld\<lparr>listHeight := 20\<rparr>)
   = Inr \<lparr>startIndex = 0, endIndex = -1, totalHeight = 10, virtualItems = []\<rparr>
   \<and> map_option summary (useFixedListSize 35 25 (Some 3) 10000 349125 None)
     = Some (9972, 10000, 875)"
proof -
  have a: "useFixedSizeList
     \<lparr>itemHeight = Some (\<lambda>_. 10), elementsQuantity = 1, getItemKey = (\<lambda>i. i),
      estimateItemHeight = None, scrollingDelay = None, overscan = None\<rparr>
     (initialWorld\<lparr>listHeight := 20\<rparr>)
   = Inr \<lparr>startIndex = 0, endIndex = -1, totalHeight = 10, virtualItems = []\<rparr>"
    by code_simp
  have r: "round (349125 / (35::real)) = 9975" "round ((349125 + 35 * 35) / (35::real)) = 10010"
    by (simp_all add: round_def floor_eq_iff)
  have b: "map_option summary (useFixedListSize 35 25 (Some 3) 10000 349125 None)
     = Some (9972, 10000, 875)"
    by (simp add: useFixedListSize_def fixedRange_def whole_below_def Let_def summary_def r)
  show ?thesis using a b by (rule conjI)
qed

text \<open>
  Two rows of height 10, an empty viewport at offset 10 and no overscan: the first row
  ends at the bottom edge, the second is the first to pass the top edge, and the start
  index is above the end index.
\<close>

lemma empty_viewport_start_after_end:
  "compute_range
     \<lparr>itemHeight = Some (\<lambda>_. 10), elementsQuantity = 2, getItemKey = (\<lambda>i. i),
      estimateItemHeight = None, scrollingDelay = None, overscan = Some 0\<rparr>
     (initialWorld\<lparr>scrollTop := 10\<rparr>)
   = Inr \<lparr>startIndex = 1, endIndex = 0, totalHeight = 20, virtualItems = []\<rparr>"
  by code_simp

lemma indices_in_bounds:
  assumes e: "List.find (\<lambda>j. b \<le> bottomEdge h j) [0..<n] = Some je"
    and tb: "t < b" and ov: "(0::int) \<le> ov"
  shows "\<exists>js. List.find (\<lambda>j. t < bottomEdge h j) [0..<n] = Some js
          \<and> 0 \<le> max 0 (int js - ov)
          \<and> max 0 (int js - ov) \<le> min (int n - 1) (int je + ov)
          \<and> min (int n - 1) (int je + ov) \<le> int n - 1"
proof -
  have je: "je < n" "b \<le> bottomEdge h je"
    using find_upt_SomeD[OF e] by simp_all
  then have "t < bottomEdge h je" using tb by linarith
  then obtain js where js: "List.find (\<lambda>j. t < bottomEdge h j) [0..<n] = Some js"
    using find_upt_ex[of je n "\<lambda>j. t < bottomEdge h j"] je(1) by blast
  have "\<forall>i<js. \<not> t < bottomEdge h i" using find_upt_SomeD[OF js] by simp
  then have "js \<le> je" using \<open>t < bottomEdge h je\<close> by (meson not_le)
  then have "max 0 (int js - ov) \<le> min (int n - 1) (int je + ov)"
    using je(1) ov by simp
  then show ?thesis using js by simp
qed

text \<open>
  For a non-empty list, a non-negative overscan and a viewport of positive height whose
  bottom edge lies within the content, the pass returns indices with
  \<open>0 \<le> startIndex \<le> endIndex \<le> elementsQuantity - 1\<close>.
\<close>

lemma range_within_bounds:
  assumes "validateProps props = Inr ()"
    and "0 < elementsQuantity props"
    and "0 \<le> the_overscan props"
    and "0 < listHeight s"
  shows "\<exists>res. compute_range props s = Inr res
          \<and> (scrollTop s + listHeight s \<le> totalHeight res \<longrightarrow>
               0 \<le> startIndex res \<and> startIndex res \<le> endIndex res
               \<and> endIndex res \<le> int (elementsQuantity props) - 1)"
proof -
  let ?n = "elementsQuantity props"
  obtain h where h: "\<And>j. getItemHeight props (measurementCache s) (int j) = Inr (h j)"
    using heights_resolve[OF assms(1)] by blast
  obtain res where res: "compute_range props s = Inr res"
      "totalHeight res = (\<Sum>j<?n. h j)"
      "startIndex res =
         (case List.find (\<lambda>j. scrollTop s < bottomEdge h j) [0..<?n] of
            None \<Rightarrow> -1 | Some j \<Rightarrow> max 0 (int j - the_overscan props))"
      "endIndex res =
         (case List.find (\<lambda>j. scrollTop s + listHeight s \<le> bottomEdge h j) [0..<?n] of
            None \<Rightarrow> -1 | Some j \<Rightarrow> min (int ?n - 1) (int j + the_overscan props))"
    using compute_range_indices[of props s h] h assms(3) by blast
  have "0 \<le> startIndex res \<and> startIndex res \<le> endIndex res \<and> endIndex res \<le> int ?n - 1"
    if within: "scrollTop s + listHeight s \<le> totalHeight res"
  proof -
    obtain m where m: "?n = Suc m" using assms(2) by (cases ?n) auto
    have "bottomEdge h m = totalHeight res"
      by (simp add: res(2) m bottomEdge_def)
    then have "scrollTop s + listHeight s \<le> bottomEdge h m" using within by simp
    then obtain je where
      je: "List.find (\<lambda>j. scrollTop s + listHeight s \<le> bottomEdge h j) [0..<?n] = Some je"
      using find_upt_ex[of m ?n "\<lambda>j. scrollTop s + listHeight s \<le> bottomEdge h j"] m by auto
    have "scrollTop s < scrollTop s + listHeight s" using assms(4) by simp
    from indices_in_bounds[OF je this assms(3)]
    show ?thesis by (auto simp: res(3,4) je)
  qed
  then show ?thesis using res(1) by blast
qed


theorem range_within_bounds_witness:
  "validateProps \<lparr>itemHeight = Some (\<lambda>_. 10), elementsQuantity = 4, getItemKey = (\<lambda>i. i),
      estimateItemHeight = None, scrollingDelay = None, overscan = Some 1\<rparr> = Inr ()
   \<and> (0::nat) < 4 \<and> (0::int) \<le> 1 \<and> (0::real) < 20
   \<and> (\<exists>res. compute_range
        \<lparr>itemHeight = Some (\<lambda>_. 10), elementsQuantity = 4, getItemKey = (\<lambda>i. i),
         estimateItemHeight = None, scrollingDelay = None, overscan = Some 1\<rparr>
        (initialWorld\<lparr>listHeight := 20, scrollTop := 10\<rparr>) = Inr res
      \<and> startIndex res = 0 \<and> endIndex res = 3 \<and> totalHeight res = 40
      \<and> (10::real) + 20 \<le> totalHeight res
      \<and> 0 \<le> startIndex res \<and> startIndex res \<le> endIndex res \<and> endIndex res \<le> int 4 - 1)"
proof -
  let ?p = "\<lparr>itemHeight = Some (\<lambda>_. 10::real), elementsQuantity = 4, getItemKey = (\<lambda>i. i),
      estimateItemHeight = None, scrollingDelay = None, overscan = Some 1\<rparr>"
  let ?s = "initialWorld\<lparr>listHeight := 20, scrollTop := 10\<rparr>"
  have v: "validateProps ?p = Inr ()" by (simp add: validateProps_def)
  have n: "0 < elementsQuantity ?p" by simp
  have ov: "0 \<le> the_overscan ?p" by (simp add: the_overscan_def)
  have lh: "0 < listHeight ?s" by (simp add: initialWorld_def)
  have ev: "compute_range ?p ?s =
      Inr \<lparr>startIndex = 0, endIndex = 3, totalHeight = 40,
           virtualItems = [Some \<lparr>key = 0, height = 10, offsetTop = 0, index = 0\<rparr>,
                           Some \<lparr>key = 1, height = 10, offsetTop = 10, index = 1\<rparr>,
                           Some \<lparr>key = 2, height = 10, offsetTop = 20, index = 2\<rparr>,
                           Some \<lparr>key = 3, height = 10, offsetTop = 30, index = 3\<rparr>]\<rparr>"
    by code_simp
  obtain res where res: "compute_range ?p ?s = Inr res"
    and imp: "scrollTop ?s + listHeight ?s \<le> totalHeight res \<longrightarrow>
               0 \<le> startIndex res \<and> startIndex res \<le> endIndex res
               \<and> endIndex res \<le> int (elementsQuantity ?p) - 1"
    using range_within_bounds[OF v n ov lh] by blast
  have vals: "startIndex res = 0" "endIndex res = 3" "totalHeight res = 40"
    using res ev by auto
  have pre: "scrollTop ?s + listHeight ?s \<le> totalHeight res"
    by (simp add: vals initialWorld_def)
  have b: "0 \<le> startIndex res \<and> startIndex res \<le> endIndex res \<and> endIndex res \<le> int 4 - 1"
    using imp pre by simp
  have "\<exists>res. compute_range ?p ?s = Inr res
      \<and> startIndex res = 0 \<and> endIndex res = 3 \<and> totalHeight res = 40
      \<and> (10::real) + 20 \<le> totalHeight res
      \<and> 0 \<le> startIndex res \<and> startIndex res \<le> endIndex res \<and> endIndex res \<le> int 4 - 1"
    using res vals b by (intro exI[of _ res]) simp
  then show ?thesis using v by simp
qed

section \<open>A viewport that extends past the last row\<close>

lemma js_slice_to_0: "js_slice xs a 0 = []"
  by (simp add: js_slice_def Let_def)

lemma bottomEdge_le_total:
  assumes "\<And>i. i < n \<Longrightarrow> 0 \<le> h i" "j < n"
  shows "bottomEdge h j \<le> (\<Sum>i<n. h i)"
proof -
  have "bottomEdge h j = (\<Sum>i<Suc j. h i)" by (simp add: bottomEdge_def)
  also have "\<dots> \<le> (\<Sum>i<n. h i)"
    using assms by (intro sum_mono2) auto
  finally show ?thesis .
qed

text \<open>
  When the heights are not negative and the content ends above the bottom edge of the
  viewport, no row passes the edge test: the end index keeps the sentinel and the slice
  handed to the host is empty.
\<close>

lemma endIndex_sentinel_past_content:
  assumes "\<And>j. j < elementsQuantity props \<Longrightarrow>
             getItemHeight props (measurementCache s) (int j) = Inr (h j)"
    and "\<And>j. j < elementsQuantity props \<Longrightarrow> 0 \<le> h j"
    and "0 \<le> the_overscan props"
    and "(\<Sum>j<elementsQuantity props. h j) < scrollTop s + listHeight s"
  shows "\<exists>res. compute_range props s = Inr res \<and> endIndex res = -1 \<and> virtualItems res = []"
proof -
  have "List.find (\<lambda>j. scrollTop s + listHeight s \<le> bottomEdge h j) [0..<elementsQuantity props]
        = None"
  proof (rule find_upt_NoneI)
    fix i assume "i < elementsQuantity props"
    then have "bottomEdge h i \<le> (\<Sum>j<elementsQuantity props. h j)"
      using bottomEdge_le_total[of "elementsQuantity props" h i] assms(2) by blast
    then show "\<not> scrollTop s + listHeight s \<le> bottomEdge h i" using assms(4) by linarith
  qed
  then show ?thesis
    using compute_range_indices[of props s h, OF assms(1) assms(3)]
    by (auto simp: js_slice_to_0)
qed

text \<open>
  Claim C5 at a short list: three unmeasured rows under an estimate of 16 in a viewport
  of height 600. No row reaches the bottom edge of the viewport; the hook returns the
  sentinel \<open>-1\<close> as the end index, not \<open>elementsQuantity - 1\<close>, and no row is handed to the
  host.
\<close>

theorem short_list_endIndex_sentinel:
  "useFixedSizeList
     \<lparr>itemHeight = None, elementsQuantity = 3, getItemKey = (\<lambda>i. i),
      estimateItemHeight = Some (\<lambda>_. 16), scrollingDelay = None, overscan = None\<rparr>
     (initialWorld\<lparr>listHeight := 600\<rparr>)
   = Inr \<lparr>startIndex = 0, endIndex = -1, totalHeight = 48, virtualItems = []\<rparr>"
  by code_simp

section \<open>A uniform height\<close>

lemma run_pass_const:
  assumes c: "0 < c" and ov: "0 \<le> ov" and n: "elementsQuantity props = n"
  shows "totalHeight (run_pass props t b ov (\<lambda>_. c) n) = real n * c"
    and "0 \<le> t \<Longrightarrow> t < real n * c \<Longrightarrow>
           startIndex (run_pass props t b ov (\<lambda>_. c) n) = max 0 (\<lfloor>t / c\<rfloor> - ov)"
    and "real n * c \<le> t \<Longrightarrow> startIndex (run_pass props t b ov (\<lambda>_. c) n) = -1"
    and "0 < b \<Longrightarrow> b \<le> real n * c \<Longrightarrow>
           endIndex (run_pass props t b ov (\<lambda>_. c) n) = min (int n - 1) (\<lceil>b / c\<rceil> - 1 + ov)"
    and "real n * c < b \<Longrightarrow> endIndex (run_pass props t b ov (\<lambda>_. c) n) = -1"
proof -
  show "totalHeight (run_pass props t b ov (\<lambda>_. c) n) = real n * c"
    by (simp add: totalHeight_run_pass)
  show "startIndex (run_pass props t b ov (\<lambda>_. c) n) = max 0 (\<lfloor>t / c\<rfloor> - ov)"
    if "0 \<le> t" "t < real n * c"
  proof -
    have "0 \<le> t / c" using that(1) c by simp
    then have "int (nat \<lfloor>t / c\<rfloor>) = \<lfloor>t / c\<rfloor>" by simp
    then show ?thesis
      by (simp add: startIndex_run_pass find_top_const[OF c that])
  qed
  show "startIndex (run_pass props t b ov (\<lambda>_. c) n) = -1" if "real n * c \<le> t"
    by (simp add: startIndex_run_pass find_top_const_None[OF c that])
  show "endIndex (run_pass props t b ov (\<lambda>_. c) n) = min (int n - 1) (\<lceil>b / c\<rceil> - 1 + ov)"
    if "0 < b" "b \<le> real n * c"
  proof -
    have "0 < b / c" using that(1) c by simp
    then have "1 \<le> \<lceil>b / c\<rceil>" by (simp add: less_ceiling_iff)
    then have "int (nat (\<lceil>b / c\<rceil> - 1)) = \<lceil>b / c\<rceil> - 1" by simp
    then show ?thesis
      using endIndex_run_pass[of ov n props t b "\<lambda>_. c"] ov n
      by (simp add: find_bottom_const[OF c that])
  qed
  show "endIndex (run_pass props t b ov (\<lambda>_. c) n) = -1" if "real n * c < b"
    using endIndex_run_pass[of ov n props t b "\<lambda>_. c"] ov n
    by (simp add: find_bottom_const_None[OF c that])
qed

lemma find_top_const_gen:
  assumes "0 < c" "0 < n" "t < real n * c"
  shows "List.find (\<lambda>j. t < bottomEdge (\<lambda>_. c) j) [0..<n] = Some (nat \<lfloor>t / c\<rfloor>)"
proof (cases "0 \<le> t")
  case True
  then show ?thesis by (rule find_top_const[OF assms(1) _ assms(3)])
next
  case False
  then have "t / c < 0" using assms(1) by (simp add: divide_neg_pos)
  then have "\<lfloor>t / c\<rfloor> < 0" by (simp add: floor_less_iff)
  then have z: "nat \<lfloor>t / c\<rfloor> = 0" by simp
  have "List.find (\<lambda>j. t < bottomEdge (\<lambda>_. c) j) [0..<n] = Some 0"
  proof (rule find_upt_SomeI)
    show "0 < n" by (rule assms(2))
    show "t < bottomEdge (\<lambda>_. c) 0" using False assms(1) by (simp add: bottomEdge_const)
  qed simp
  then show ?thesis by (simp only: z)
qed

lemma find_bottom_const_gen:
  assumes "0 < c" "0 < n" "b \<le> real n * c"
  shows "List.find (\<lambda>j. b \<le> bottomEdge (\<lambda>_. c) j) [0..<n] = Some (nat (\<lceil>b / c\<rceil> - 1))"
proof (cases "0 < b")
  case True
  then show ?thesis by (rule find_bottom_const[OF assms(1) _ assms(3)])
next
  case False
  then have "b / c \<le> 0" using assms(1) by (simp add: divide_le_0_iff)
  then have "\<lceil>b / c\<rceil> \<le> 0" by (simp add: ceiling_le_iff)
  then have z: "nat (\<lceil>b / c\<rceil> - 1) = 0" by simp
  have "List.find (\<lambda>j. b \<le> bottomEdge (\<lambda>_. c) j) [0..<n] = Some 0"
  proof (rule find_upt_SomeI)
    show "0 < n" by (rule assms(2))
    show "b \<le> bottomEdge (\<lambda>_. c) 0" using False assms(1) by (simp add: bottomEdge_const)
  qed simp
  then show ?thesis by (simp only: z)
qed

lemma run_pass_const_gen:
  assumes c: "0 < c" and ov: "0 \<le> ov" and n: "elementsQuantity props = n" and pos: "0 < n"
  shows "t < real n * c \<Longrightarrow>
           startIndex (run_pass props t b ov (\<lambda>_. c) n) = max 0 (\<lfloor>t / c\<rfloor> - ov)"
    and "b \<le> real n * c \<Longrightarrow>
           endIndex (run_pass props t b ov (\<lambda>_. c) n)
             = min (int n - 1) (max 0 (\<lceil>b / c\<rceil> - 1) + ov)"
proof -
  show "startIndex (run_pass props t b ov (\<lambda>_. c) n) = max 0 (\<lfloor>t / c\<rfloor> - ov)"
    if "t < real n * c"
  proof -
    have "max 0 (int (nat k) - ov) = max 0 (k - ov)" for k :: int
      using ov by (cases "0 \<le> k") auto
    then have "max 0 (int (nat \<lfloor>t / c\<rfloor>) - ov) = max 0 (\<lfloor>t / c\<rfloor> - ov)" .
    then show ?thesis
      by (simp add: startIndex_run_pass find_top_const_gen[OF c pos that])
  qed
  show "endIndex (run_pass props t b ov (\<lambda>_. c) n)
          = min (int n - 1) (max 0 (\<lceil>b / c\<rceil> - 1) + ov)"
    if "b \<le> real n * c"
  proof -
    have "int (nat (\<lceil>b / c\<rceil> - 1)) = max 0 (\<lceil>b / c\<rceil> - 1)" by simp
    then show ?thesis
      using endIndex_run_pass[of ov n props t b "\<lambda>_. c"] ov n
      by (simp add: find_bottom_const_gen[OF c pos that])
  qed
qed

subsection \<open>The earlier revision runs the same pass\<close>

lemma pass_loop0_fold:
  "pass_loop0 f n t b ov i st = fold (\<lambda>j. loop_body0 f n t b ov j) [i..<n] st"
proof (induction f n t b ov i st rule: pass_loop0.induct)
  case (1 f n t b ov i st)
  show ?case
  proof (cases "i < n")
    case True
    have "pass_loop0 f n t b ov i st = pass_loop0 f n t b ov (Suc i) (loop_body0 f n t b ov i st)"
      using True by (subst pass_loop0.simps) simp
    also have "\<dots> = fold (\<lambda>j. loop_body0 f n t b ov j) [Suc i..<n] (loop_body0 f n t b ov i st)"
      using 1[OF True] .
    finally show ?thesis using True by (simp add: upt_rec[of i])
  next
    case False
    then show ?thesis by (subst pass_loop0.simps) simp
  qed
qed

lemma loop_body_fields:
  "totalHeight (loop_body props t b ov i h st) = totalHeight st + h"
  "startIndex (loop_body props t b ov i h st) =
     (if startIndex st = -1 \<and> t < totalHeight st + h then max 0 (int i - ov) else startIndex st)"
  "endIndex (loop_body props t b ov i h st) =
     (if endIndex st = -1 \<and> b \<le> totalHeight st + h
      then min (int (elementsQuantity props) - 1) (int i + ov) else endIndex st)"
  by (simp_all add: loop_body_def Let_def)

lemma loop_body0_fields:
  "totalHeight (loop_body0 f n t b ov i st) = totalHeight st + f ()"
  "startIndex (loop_body0 f n t b ov i st) =
     (if startIndex st = -1 \<and> t < totalHeight st + f () then max 0 (int i - ov) else startIndex st)"
  "endIndex (loop_body0 f n t b ov i st) =
     (if endIndex st = -1 \<and> b \<le> totalHeight st + f ()
      then min (int n - 1) (int i + ov) else endIndex st)"
  by (simp_all add: loop_body0_def Let_def)

lemma loop0_simulates:
  assumes "elementsQuantity props = n"
  shows "summary (fold (\<lambda>j. loop_body0 f n t b ov j) [0..<k]
                    \<lparr>startIndex = -1, endIndex = -1, totalHeight = 0,
                     allRows0 = replicate n None\<rparr>)
         = summary (run_pass props t b ov (\<lambda>_. f ()) k)"
proof (induction k)
  case 0
  show ?case by (simp add: run_pass_0 initial_pass_def summary_def)
next
  case (Suc k)
  then show ?case
    using assms
    by (simp add: run_pass_Suc loop_body_fields loop_body0_fields summary_def)
qed

lemma useFixedSizeList0_summary:
  assumes "elementsQuantity props = n"
  shows "summary (useFixedSizeList0 f n ovo t lh) =
         summary (run_pass props t (t + lh)
                    (case ovo of None \<Rightarrow> DEFAULT_OVERSCAN | Some v \<Rightarrow> v) (\<lambda>_. f ()) n)"
  using loop0_simulates[OF assms, of f t "t + lh" _ n]
  by (simp add: useFixedSizeList0_def Let_def pass_loop0_fold summary_def)

lemma compute_range_summary:
  assumes "\<And>j. j < elementsQuantity props \<Longrightarrow>
             getItemHeight props (measurementCache s) (int j) = Inr (h j)"
  shows "map_sum id summary (compute_range props s) =
         Inr (summary (run_pass props (scrollTop s) (scrollTop s + listHeight s)
                         (the_overscan props) h (elementsQuantity props)))"
  by (simp add: compute_range_def range_pass_run_pass[of props s h, OF assms] summary_def)

section \<open>The fast path against the pass\<close>

lemma useFixedSizeList_summary_const:
  assumes "itemHeight props = Some (\<lambda>_. c)"
  shows "map_sum id summary (useFixedSizeList props s) =
         Inr (summary (run_pass props (scrollTop s) (scrollTop s + listHeight s)
                         (the_overscan props) (\<lambda>_. c) (elementsQuantity props)))"
proof -
  have "validateProps props = Inr ()" using assms by (simp add: validateProps_def)
  moreover have "getItemHeight props (measurementCache s) (int j) = Inr c" for j
    using assms by (simp add: getItemHeight_def)
  ultimately show ?thesis
    using compute_range_summary[of props s "\<lambda>_. c"] by (simp add: useFixedSizeList_def)
qed

text \<open>
  Claim C2 fails at ten rows of height 10, a viewport of height 20 at offset 0 and no
  overscan: the formulas of the fast path give the end index 2, both revisions of the
  pass give 1. With a single row the fast path gives the end index 0 and the pass the
  sentinel.
\<close>

theorem fast_path_counterexample:
  "summary (fast_path_spec 10 10 0 20 0) = (0, 2, 100)
   \<and> summary (useFixedSizeList0 (\<lambda>_. 10) 10 (Some 0) 0 20) = (0, 1, 100)
   \<and> map_sum id summary
        (useFixedSizeList
           \<lparr>itemHeight = Some (\<lambda>_. 10), elementsQuantity = 10, getItemKey = (\<lambda>i. i),
            estimateItemHeight = None, scrollingDelay = None, overscan = Some 0\<rparr>
           (initialWorld\<lparr>listHeight := 20\<rparr>)) = Inr (0, 1, 100)
   \<and> summary (fast_path_spec 1 10 0 20 0) = (0, 0, 10)
   \<and> summary (useFixedSizeList0 (\<lambda>_. 10) 1 (Some 0) 0 20) = (0, -1, 10)"
  by code_simp

text \<open>
  Claim C2, amended. Take a uniform height \<open>c > 0\<close> and a non-negative overscan, with
  the height, the scroll offset, the viewport size, the bottom edge of the
  viewport and the height of the whole content all whole numbers of magnitude at most
  \<open>2 ^ 53\<close>, so that every sum of the pass is exact. Then both revisions of the pass return
  the total height of the fast path; the start index of the fast path whenever the list
  is not empty and the scroll offset lies before the end of the content; and, whenever the bottom edge of the
  viewport lies within the content, the end index
  \<open>min (itemCount - 1) (max 0 (\<lceil>(scrollOffset + viewportSize) / c\<rceil> - 1) + overscan)\<close>: the
  formula of the fast path with the ceiling lowered by one and kept at zero or above.
\<close>

theorem uniform_height_pass:
  assumes "0 < c" and "itemHeight props = Some (\<lambda>_. c)" and "0 \<le> the_overscan props"
    and "whole_below 53 c" and "whole_below 53 (scrollTop s)" and "whole_below 53 (listHeight s)"
    and "whole_below 53 (scrollTop s + listHeight s)"
    and "whole_below 53 (real (elementsQuantity props) * c)"
  shows "\<exists>res. useFixedSizeList props s = Inr res
          \<and> totalHeight res =
              totalHeight (fast_path_spec (elementsQuantity props) c (scrollTop s) (listHeight s)
                             (the_overscan props))
          \<and> totalHeight (useFixedSizeList0 (\<lambda>_. c) (elementsQuantity props)
                            (Some (the_overscan props)) (scrollTop s) (listHeight s))
              = totalHeight res
          \<and> startIndex (useFixedSizeList0 (\<lambda>_. c) (elementsQuantity props)
                            (Some (the_overscan props)) (scrollTop s) (listHeight s))
              = startIndex res
          \<and> endIndex (useFixedSizeList0 (\<lambda>_. c) (elementsQuantity props)
                            (Some (the_overscan props)) (scrollTop s) (listHeight s))
              = endIndex res
          \<and> (0 < elementsQuantity props \<and> scrollTop s < real (elementsQuantity props) * c \<longrightarrow>
               startIndex res =
                 startIndex (fast_path_spec (elementsQuantity props) c (scrollTop s) (listHeight s)
                               (the_overscan props)))
          \<and> (scrollTop s + listHeight s \<le> real (elementsQuantity props) * c \<longrightarrow>
               endIndex res =
                 min (int (elementsQuantity props) - 1)
                     (max 0 (\<lceil>(scrollTop s + listHeight s) / c\<rceil> - 1) + the_overscan props))"
proof -
  let ?n = "elementsQuantity props" and ?ov = "the_overscan props"
  let ?t = "scrollTop s" and ?b = "scrollTop s + listHeight s"
  let ?run = "run_pass props ?t ?b ?ov (\<lambda>_. c) ?n"
  have v: "validateProps props = Inr ()" using assms(2) by (simp add: validateProps_def)
  obtain res where res: "useFixedSizeList props s = Inr res"
    using compute_range_valid[OF v, of s] v by (auto simp: useFixedSizeList_def)
  have "summary res = summary ?run"
    using useFixedSizeList_summary_const[OF assms(2), of s] res by simp
  then have f: "startIndex res = startIndex ?run" "endIndex res = endIndex ?run"
      "totalHeight res = totalHeight ?run"
    by (simp_all add: summary_def)
  have "summary (useFixedSizeList0 (\<lambda>_. c) ?n (Some ?ov) ?t (listHeight s)) = summary ?run"
    using useFixedSizeList0_summary[of props ?n "\<lambda>_. c" "Some ?ov" ?t "listHeight s"] by simp
  then have f0: "startIndex (useFixedSizeList0 (\<lambda>_. c) ?n (Some ?ov) ?t (listHeight s)) = startIndex res"
      "endIndex (useFixedSizeList0 (\<lambda>_. c) ?n (Some ?ov) ?t (listHeight s)) = endIndex res"
      "totalHeight (useFixedSizeList0 (\<lambda>_. c) ?n (Some ?ov) ?t (listHeight s)) = totalHeight res"
    by (simp_all add: summary_def f)
  note rc = run_pass_const_gen[OF assms(1) assms(3) refl, where t = "?t" and b = "?b"]
  have tot: "totalHeight res = totalHeight (fast_path_spec ?n c ?t (listHeight s) ?ov)"
    by (simp add: f totalHeight_run_pass fast_path_spec_def)
  have st: "startIndex res = startIndex (fast_path_spec ?n c ?t (listHeight s) ?ov)"
    if "0 < ?n \<and> ?t < real ?n * c"
    using rc(1)[of props] that by (simp add: f fast_path_spec_def)
  have en: "endIndex res = min (int ?n - 1) (max 0 (\<lceil>?b / c\<rceil> - 1) + ?ov)"
    if le: "?b \<le> real ?n * c"
  proof (cases "0 < ?n")
    case True
    then show ?thesis using rc(2)[of props] le by (simp add: f)
  next
    case False
    then have "endIndex ?run = -1" by (simp add: run_pass_0 initial_pass_def)
    moreover have "0 \<le> max 0 (\<lceil>?b / c\<rceil> - 1) + ?ov" using assms(3) by simp
    ultimately show ?thesis using False by (simp add: f)
  qed
  show ?thesis
    using res tot f0 st en by blast
qed

theorem uniform_height_pass_witness:
  "(0::real) < 10 \<and> (0::int) \<le> 1
   \<and> whole_below 53 10 \<and> whole_below 53 25 \<and> whole_below 53 (10 + 25)
   \<and> whole_below 53 (real 10 * 10)
   \<and> (0::nat) < 10 \<and> (10::real) < real 10 * 10 \<and> (10::real) + 25 \<le> real 10 * 10
   \<and> (\<exists>res. useFixedSizeList
         \<lparr>itemHeight = Some (\<lambda>_. 10), elementsQuantity = 10, getItemKey = (\<lambda>i. i),
          estimateItemHeight = None, scrollingDelay = None, overscan = Some 1\<rparr>
         (initialWorld\<lparr>listHeight := 25, scrollTop := 10\<rparr>) = Inr res
       \<and> totalHeight res = 100 \<and> startIndex res = 0 \<and> endIndex res = 4)
   \<and> summary (useFixedSizeList0 (\<lambda>_. 10) 10 (Some 1) 10 25) = (0, 4, 100)"
proof -
  let ?p = "\<lparr>itemHeight = Some (\<lambda>_. 10::real), elementsQuantity = 10, getItemKey = (\<lambda>i. i),
          estimateItemHeight = None, scrollingDelay = None, overscan = Some 1\<rparr>"
  let ?s = "initialWorld\<lparr>listHeight := 25, scrollTop := 10\<rparr>"
  have s: "scrollTop ?s = 10" "listHeight ?s = 25" by (simp_all add: initialWorld_def)
  have ov: "the_overscan ?p = 1" by (simp add: the_overscan_def)
  have w: "whole_below 53 10" "whole_below 53 25" "whole_below 53 (10 + 25)"
      "whole_below 53 (real 10 * 10)"
    by (simp_all add: whole_below_def)
  have "\<exists>res. useFixedSizeList ?p ?s = Inr res
          \<and> totalHeight res = totalHeight (fast_path_spec 10 10 10 25 1)
          \<and> totalHeight (useFixedSizeList0 (\<lambda>_. 10) 10 (Some 1) 10 25) = totalHeight res
          \<and> startIndex (useFixedSizeList0 (\<lambda>_. 10) 10 (Some 1) 10 25) = startIndex res
          \<and> endIndex (useFixedSizeList0 (\<lambda>_. 10) 10 (Some 1) 10 25) = endIndex res
          \<and> ((0::nat) < 10 \<and> (10::real) < real 10 * 10 \<longrightarrow>
               startIndex res = startIndex (fast_path_spec 10 10 10 25 1))
          \<and> ((10::real) + 25 \<le> real 10 * 10 \<longrightarrow>
               endIndex res = min (int 10 - 1) (max 0 (\<lceil>(10 + 25) / (10::real)\<rceil> - 1) + 1))"
    using uniform_height_pass[of 10 ?p ?s] w unfolding s ov by simp
  then obtain res where res: "useFixedSizeList ?p ?s = Inr res"
      "totalHeight res = totalHeight (fast_path_spec 10 10 10 25 1)"
      "totalHeight (useFixedSizeList0 (\<lambda>_. 10) 10 (Some 1) 10 25) = totalHeight res"
      "startIndex (useFixedSizeList0 (\<lambda>_. 10) 10 (Some 1) 10 25) = startIndex res"
      "endIndex (useFixedSizeList0 (\<lambda>_. 10) 10 (Some 1) 10 25) = endIndex res"
      "startIndex res = startIndex (fast_path_spec 10 10 10 25 1)"
      "endIndex res = min (int 10 - 1) (max 0 (\<lceil>(10 + 25) / (10::real)\<rceil> - 1) + 1)"
    by auto
  have c: "\<lceil>(10 + 25) / (10::real)\<rceil> = 4" by (simp add: ceiling_eq_iff)
  have vals: "totalHeight res = 100" "startIndex res = 0" "endIndex res = 4"
    using res(2,6,7) by (simp_all add: fast_path_spec_def c)
  have "summary (useFixedSizeList0 (\<lambda>_. 10) 10 (Some 1) 10 25) = (0, 4, 100)"
    using res(3,4,5) vals by (simp add: summary_def)
  moreover have "\<exists>res. useFixedSizeList ?p ?s = Inr res
       \<and> totalHeight res = 100 \<and> startIndex res = 0 \<and> endIndex res = 4"
    using res(1) vals by blast
  ultimately show ?thesis using w by simp
qed

section \<open>The scenario of a thousand rows\<close>

text \<open>
  Claim C4 fails on the code: a thousand rows of height 40, overscan 3, a viewport of
  height 600 at offset 0. Neither revision of the pass returns the end index 18, and the
  fixed-size hook of the other file, which squares the element height for its container
  and has no viewport input, returns 43.
\<close>

theorem scenario_endIndex_counterexample:
  "map_sum id endIndex
     (useFixedSizeList
        \<lparr>itemHeight = Some (\<lambda>_. 40), elementsQuantity = 1000, getItemKey = (\<lambda>i. i),
         estimateItemHeight = None, scrollingDelay = None, overscan = Some 3\<rparr>
        (initialWorld\<lparr>listHeight := 600\<rparr>)) \<noteq> Inr 18
   \<and> endIndex (useFixedSizeList0 (\<lambda>_. 40) 1000 (Some 3) 0 600) \<noteq> 18
   \<and> map_option endIndex (useFixedListSize 40 1000 (Some 3) 10000 0 None) = Some 43"
proof -
  let ?p = "\<lparr>itemHeight = Some (\<lambda>_. 40::real), elementsQuantity = 1000, getItemKey = (\<lambda>i. i),
         estimateItemHeight = None, scrollingDelay = None, overscan = Some 3\<rparr>"
  let ?s = "initialWorld\<lparr>listHeight := 600\<rparr>"
  have c: "\<lceil>600 / (40::real)\<rceil> = 15" by (simp add: ceiling_eq_iff)
  have e: "endIndex (run_pass ?p 0 600 3 (\<lambda>_. 40) 1000) = 17"
    using run_pass_const(4)[of 40 3 ?p 1000 600 0] by (simp add: c)
  have "map_sum id summary (useFixedSizeList ?p ?s)
        = Inr (summary (run_pass ?p 0 600 3 (\<lambda>_. 40) 1000))"
    using useFixedSizeList_summary_const[of ?p 40 ?s]
    by (simp add: initialWorld_def the_overscan_def)
  then have a: "map_sum id endIndex (useFixedSizeList ?p ?s) = Inr 17"
    by (cases "useFixedSizeList ?p ?s") (simp_all add: summary_def e)
  have "summary (useFixedSizeList0 (\<lambda>_. 40) 1000 (Some 3) 0 600)
        = summary (run_pass ?p 0 600 3 (\<lambda>_. 40) 1000)"
    using useFixedSizeList0_summary[of ?p 1000 "\<lambda>_. 40" "Some 3" 0 600] by simp
  then have b: "endIndex (useFixedSizeList0 (\<lambda>_. 40) 1000 (Some 3) 0 600) = 17"
    by (simp add: summary_def e)
  have r: "round ((0 + 40 * 40) / (40::real)) = 40" "round (0 / (40::real)) = 0"
    by (simp_all add: round_def floor_eq_iff)
  have d: "map_option endIndex (useFixedListSize 40 1000 (Some 3) 10000 0 None) = Some 43"
    by (simp add: useFixedListSize_def fixedRange_def whole_below_def Let_def r)
  show ?thesis using a b d by simp
qed

text \<open>
  Claim C4, amended. In this scenario both revisions of the pass return the start index
  0, the end index 17 and the total height 40000: row 14 is the first whose bottom edge
  reaches the bottom of the viewport, and the overscan adds 3.
\<close>

theorem scenario_thousand_rows:
  "map_sum id summary
     (useFixedSizeList
        \<lparr>itemHeight = Some (\<lambda>_. 40), elementsQuantity = 1000, getItemKey = (\<lambda>i. i),
         estimateItemHeight = None, scrollingDelay = None, overscan = Some 3\<rparr>
        (initialWorld\<lparr>listHeight := 600\<rparr>)) = Inr (0, 17, 40000)
   \<and> map_sum id summary
     (useFixedSizeList
        \<lparr>itemHeight = Some (\<lambda>_. 40), elementsQuantity = 1000, getItemKey = (\<lambda>i. i),
         estimateItemHeight = None, scrollingDelay = None, overscan = None\<rparr>
        (initialWorld\<lparr>listHeight := 600\<rparr>)) = Inr (0, 17, 40000)
   \<and> summary (useFixedSizeList0 (\<lambda>_. 40) 1000 (Some 3) 0 600) = (0, 17, 40000)"
proof -
  let ?p = "\<lparr>itemHeight = Some (\<lambda>_. 40::real), elementsQuantity = 1000, getItemKey = (\<lambda>i. i),
         estimateItemHeight = None, scrollingDelay = None, overscan = Some 3\<rparr>"
  let ?q = "\<lparr>itemHeight = Some (\<lambda>_. 40::real), elementsQuantity = 1000, getItemKey = (\<lambda>i. i),
         estimateItemHeight = None, scrollingDelay = None, overscan = None\<rparr>"
  let ?s = "initialWorld\<lparr>listHeight := 600\<rparr>"
  have c: "\<lceil>600 / (40::real)\<rceil> = 15" by (simp add: ceiling_eq_iff)
  have run: "summary (run_pass pr 0 600 3 (\<lambda>_. 40) 1000) = (0, 17, 40000)"
    if "elementsQuantity pr = 1000" for pr
    using run_pass_const(1)[of 40 3 pr 1000 0 600] run_pass_const(2)[of 40 3 pr 1000 0 600]
      run_pass_const(4)[of 40 3 pr 1000 600 0] that
    by (simp add: summary_def c)
  have a: "map_sum id summary (useFixedSizeList ?p ?s) = Inr (0, 17, 40000)"
    using useFixedSizeList_summary_const[of ?p 40 ?s] run[of ?p]
    by (simp add: initialWorld_def the_overscan_def)
  have a': "map_sum id summary (useFixedSizeList ?q ?s) = Inr (0, 17, 40000)"
    using useFixedSizeList_summary_const[of ?q 40 ?s] run[of ?q]
    by (simp add: initialWorld_def the_overscan_def DEFAULT_OVERSCAN_def)
  have b: "summary (useFixedSizeList0 (\<lambda>_. 40) 1000 (Some 3) 0 600) = (0, 17, 40000)"
    using useFixedSizeList0_summary[of ?p 1000 "\<lambda>_. 40" "Some 3" 0 600] run[of ?p] by simp
  show ?thesis using a a' b by simp
qed

section \<open>Measured heights\<close>



lemma measureElement_frame:
  "scrollTop (measureElement props el s) = scrollTop s"
  "listHeight (measureElement props el s) = listHeight s"
  by (simp_all add: measureElement_def split: option.splits)



section \<open>An explicit item height beside an estimate\<close>

lemma range_pass_explicit:
  assumes "itemHeight props = Some f"
  shows "range_pass props s =
         Inr (run_pass props (scrollTop s) (scrollTop s + listHeight s) (the_overscan props)
                (\<lambda>j. f (int j)) (elementsQuantity props))"
proof (rule range_pass_run_pass)
  show "getItemHeight props (measurementCache s) (int j) = Inr (f (int j))" for j
    using assms by (simp add: getItemHeight_def)
qed

lemma useFixedSizeList_cache_irrelevant:
  assumes "itemHeight props = Some f"
    and "scrollTop s' = scrollTop s" and "listHeight s' = listHeight s"
  shows "range_pass props s' = range_pass props s"
    and "useFixedSizeList props s' = useFixedSizeList props s"
proof -
  show *: "range_pass props s' = range_pass props s"
    by (simp add: range_pass_explicit[OF assms(1)] assms(2,3))
  have "validateProps props = Inr ()" using assms(1) by (simp add: validateProps_def)
  then show "useFixedSizeList props s' = useFixedSizeList props s"
    by (simp add: useFixedSizeList_def compute_range_def *)
qed

text \<open>
  Claim C10. When both the item-height function and the estimate are supplied, validation
  passes, every height query returns the value of the item-height function whatever the
  cache holds, and the hook returns the same range, rows and total height after any
  measurement and for any other cache.
\<close>

theorem explicit_itemHeight_ignores_cache:
  assumes "itemHeight props = Some f" and "estimateItemHeight props = Some est"
  shows "validateProps props = Inr ()
       \<and> getItemHeight props cache i = Inr (f i)
       \<and> (\<exists>res. useFixedSizeList props s = Inr res
              \<and> useFixedSizeList props (measureElement props el s) = Inr res
              \<and> useFixedSizeList props (s\<lparr>measurementCache := cache\<rparr>) = Inr res)
       \<and> range_pass props (measureElement props el s) = range_pass props s
       \<and> range_pass props (s\<lparr>measurementCache := cache\<rparr>) = range_pass props s"
proof -
  have v: "validateProps props = Inr ()" using assms(1) by (simp add: validateProps_def)
  have g: "getItemHeight props cache i = Inr (f i)" using assms(1) by (simp add: getItemHeight_def)
  obtain res where res: "useFixedSizeList props s = Inr res"
    using compute_range_valid[OF v, of s] v by (auto simp: useFixedSizeList_def)
  have m: "range_pass props (measureElement props el s) = range_pass props s"
      "useFixedSizeList props (measureElement props el s) = useFixedSizeList props s"
    using useFixedSizeList_cache_irrelevant[OF assms(1), of "measureElement props el s" s]
    by (simp_all add: measureElement_frame)
  have c: "range_pass props (s\<lparr>measurementCache := cache\<rparr>) = range_pass props s"
      "useFixedSizeList props (s\<lparr>measurementCache := cache\<rparr>) = useFixedSizeList props s"
    using useFixedSizeList_cache_irrelevant[OF assms(1), of "s\<lparr>measurementCache := cache\<rparr>" s]
    by simp_all
  show ?thesis using v g res m c by simp
qed

theorem explicit_itemHeight_ignores_cache_witness:
  "itemHeight \<lparr>itemHeight = Some (\<lambda>i. if i = 1 then 30 else 20), elementsQuantity = 3,
       getItemKey = (\<lambda>i. i), estimateItemHeight = Some (\<lambda>_. 16), scrollingDelay = None,
       overscan = None\<rparr> \<noteq> None
   \<and> estimateItemHeight \<lparr>itemHeight = Some (\<lambda>i. if i = 1 then 30 else 20), elementsQuantity = 3,
       getItemKey = (\<lambda>i. i), estimateItemHeight = Some (\<lambda>_. 16), scrollingDelay = None,
       overscan = None\<rparr> \<noteq> None
   \<and> getItemHeight \<lparr>itemHeight = Some (\<lambda>i. if i = 1 then 30 else 20), elementsQuantity = 3,
       getItemKey = (\<lambda>i. i), estimateItemHeight = Some (\<lambda>_. 16), scrollingDelay = None,
       overscan = None\<rparr> [1 \<mapsto> 50] 1 = Inr 30
   \<and> useFixedSizeList \<lparr>itemHeight = Some (\<lambda>i. if i = 1 then 30 else 20), elementsQuantity = 3,
       getItemKey = (\<lambda>i. i), estimateItemHeight = Some (\<lambda>_. 16), scrollingDelay = None,
       overscan = None\<rparr>
       (measureElement \<lparr>itemHeight = Some (\<lambda>i. if i = 1 then 30 else 20), elementsQuantity = 3,
          getItemKey = (\<lambda>i. i), estimateItemHeight = Some (\<lambda>_. 16), scrollingDelay = None,
          overscan = None\<rparr> (Some \<lparr>dataIndex = Some 1, rectHeight = 50\<rparr>)
          (initialWorld\<lparr>listHeight := 25\<rparr>))
     = useFixedSizeList \<lparr>itemHeight = Some (\<lambda>i. if i = 1 then 30 else 20), elementsQuantity = 3,
       getItemKey = (\<lambda>i. i), estimateItemHeight = Some (\<lambda>_. 16), scrollingDelay = None,
       overscan = None\<rparr> (initialWorld\<lparr>listHeight := 25\<rparr>)
   \<and> map_sum id summary
       (useFixedSizeList \<lparr>itemHeight = Some (\<lambda>i. if i = 1 then 30 else 20), elementsQuantity = 3,
       getItemKey = (\<lambda>i. i), estimateItemHeight = Some (\<lambda>_. 16), scrollingDelay = None,
       overscan = None\<rparr>
       (measureElement \<lparr>itemHeight = Some (\<lambda>i. if i = 1 then 30 else 20), elementsQuantity = 3,
          getItemKey = (\<lambda>i. i), estimateItemHeight = Some (\<lambda>_. 16), scrollingDelay = None,
          overscan = None\<rparr> (Some \<lparr>dataIndex = Some 1, rectHeight = 50\<rparr>)
          (initialWorld\<lparr>listHeight := 25\<rparr>))) = Inr (0, 2, 70)"
proof -
  let ?p = "\<lparr>itemHeight = Some (\<lambda>i. if i = 1 then 30 else (20::real)), elementsQuantity = 3,
       getItemKey = (\<lambda>i. i), estimateItemHeight = Some (\<lambda>_. 16::real), scrollingDelay = None,
       overscan = None\<rparr>"
  let ?el = "Some \<lparr>dataIndex = Some 1, rectHeight = 50\<rparr>"
  let ?s = "initialWorld\<lparr>listHeight := 25\<rparr>"
  have ih: "itemHeight ?p = Some (\<lambda>i. if i = 1 then 30 else 20)" by simp
  have eh: "estimateItemHeight ?p = Some (\<lambda>_. 16)" by simp
  note t = explicit_itemHeight_ignores_cache[OF ih eh, of "[1 \<mapsto> 50]" 1 ?s ?el]
  have g: "getItemHeight ?p [1 \<mapsto> 50] 1 = Inr 30" using t by simp
  have u: "useFixedSizeList ?p (measureElement ?p ?el ?s) = useFixedSizeList ?p ?s"
    using t by auto
  have ev: "map_sum id summary (useFixedSizeList ?p ?s) = Inr (0, 2, 70)" by code_simp
  show ?thesis using g u ev by simp
qed

section \<open>The isScrolling flag\<close>

lemma setTimeout_fields:
  "fst (setTimeout d w) = nextTimerId w"
  "pendingTimers (snd (setTimeout d w)) = pendingTimers w @ [(nextTimerId w, now w + d)]"
  "nextTimerId (snd (setTimeout d w)) = Suc (nextTimerId w)"
  "isScrolling (snd (setTimeout d w)) = isScrolling w"
  "now (snd (setTimeout d w)) = now w"
  "scrollListener (snd (setTimeout d w)) = scrollListener w"
  "firedTimers (snd (setTimeout d w)) = firedTimers w"
  by (simp_all add: setTimeout_def)

lemma handleScroll_fields:
  "isScrolling (handleScroll props w) = True"
  "pendingTimers (handleScroll props w) =
     (case timeoutId w of
        None \<Rightarrow> pendingTimers w
      | Some tid \<Rightarrow> if tid \<noteq> 0 then filter (\<lambda>(i, dueTime). i \<noteq> tid) (pendingTimers w)
                    else pendingTimers w)
     @ [(nextTimerId w, now w + SCROLLING_DELAY)]"
  "timeoutId (handleScroll props w) = Some (nextTimerId w)"
  "nextTimerId (handleScroll props w) = Suc (nextTimerId w)"
  "now (handleScroll props w) = now w"
  "scrollListener (handleScroll props w) = scrollListener w"
  "firedTimers (handleScroll props w) = firedTimers w"
  by (simp_all add: handleScroll_def setTimeout_def clearTimeout_def Let_def split: option.splits)

lemma handleScroll_ignores_scrollingDelay:
  "handleScroll (props\<lparr>scrollingDelay := d\<rparr>) w = handleScroll props w"
  by (simp add: handleScroll_def)

lemma handleScroll1_timers:
  "pendingTimers (handleScroll1 (Some d) w) =
     (case timeoutId w of
        None \<Rightarrow> pendingTimers w
      | Some tid \<Rightarrow> if tid \<noteq> 0 then filter (\<lambda>(i, dueTime). i \<noteq> tid) (pendingTimers w)
                    else pendingTimers w)
     @ [(nextTimerId w, now w + d)]"
  by (simp add: handleScroll1_def setTimeout_def clearTimeout_def Let_def split: option.splits)

text \<open>
  Claim C8 at a configured delay of 500: the hook is mounted on a scroll element, one
  scroll notification arrives at time 0, and 150 time units pass. The flag is true right
  after the notification, but the timer was set with the module constant 150 and not with
  the configured 500, so the flag is false again at time 150.
\<close>

theorem configured_scrollingDelay_not_used:
  "the_scrollingDelay
     \<lparr>itemHeight = None, elementsQuantity = 3, getItemKey = (\<lambda>i. i),
      estimateItemHeight = Some (\<lambda>_. 16), scrollingDelay = Some 500, overscan = None\<rparr> = 500
   \<and> isScrolling
       (scrollEvent
          \<lparr>itemHeight = None, elementsQuantity = 3, getItemKey = (\<lambda>i. i),
           estimateItemHeight = Some (\<lambda>_. 16), scrollingDelay = Some 500, overscan = None\<rparr>
          (snd (isScrollingEffect
             \<lparr>itemHeight = None, elementsQuantity = 3, getItemKey = (\<lambda>i. i),
              estimateItemHeight = Some (\<lambda>_. 16), scrollingDelay = Some 500, overscan = None\<rparr>
             True initialWorld))) = True
   \<and> pendingTimers
       (scrollEvent
          \<lparr>itemHeight = None, elementsQuantity = 3, getItemKey = (\<lambda>i. i),
           estimateItemHeight = Some (\<lambda>_. 16), scrollingDelay = Some 500, overscan = None\<rparr>
          (snd (isScrollingEffect
             \<lparr>itemHeight = None, elementsQuantity = 3, getItemKey = (\<lambda>i. i),
              estimateItemHeight = Some (\<lambda>_. 16), scrollingDelay = Some 500, overscan = None\<rparr>
             True initialWorld))) = [(1, 150)]
   \<and> isScrolling
       (advance 150
         (scrollEvent
          \<lparr>itemHeight = None, elementsQuantity = 3, getItemKey = (\<lambda>i. i),
           estimateItemHeight = Some (\<lambda>_. 16), scrollingDelay = Some 500, overscan = None\<rparr>
          (snd (isScrollingEffect
             \<lparr>itemHeight = None, elementsQuantity = 3, getItemKey = (\<lambda>i. i),
              estimateItemHeight = Some (\<lambda>_. 16), scrollingDelay = Some 500, overscan = None\<rparr>
             True initialWorld)))) = False
   \<and> pendingTimers
       (scrollEvent1 (Some 500) (snd (scrollEffect1 (Some 500) True initialWorld))) = [(2, 500)]"
  by code_simp

section \<open>Teardown\<close>

text \<open>
  Claim C9 fails on the code. The hook is mounted, one scroll notification arrives, and
  the cleanup of the effect runs: the listener is gone, the timer of the notification is
  still pending, and its callback runs 150 time units later, after the teardown.
\<close>

theorem teardown_counterexample:
  "scrollListener
     (runCleanup (fst (isScrollingEffect
        \<lparr>itemHeight = None, elementsQuantity = 3, getItemKey = (\<lambda>i. i),
         estimateItemHeight = Some (\<lambda>_. 16), scrollingDelay = None, overscan = None\<rparr>
        True initialWorld))
      (scrollEvent
        \<lparr>itemHeight = None, elementsQuantity = 3, getItemKey = (\<lambda>i. i),
         estimateItemHeight = Some (\<lambda>_. 16), scrollingDelay = None, overscan = None\<rparr>
        (snd (isScrollingEffect
           \<lparr>itemHeight = None, elementsQuantity = 3, getItemKey = (\<lambda>i. i),
            estimateItemHeight = Some (\<lambda>_. 16), scrollingDelay = None, overscan = None\<rparr>
           True initialWorld)))) = False
   \<and> pendingTimers
     (runCleanup (fst (isScrollingEffect
        \<lparr>itemHeight = None, elementsQuantity = 3, getItemKey = (\<lambda>i. i),
         estimateItemHeight = Some (\<lambda>_. 16), scrollingDelay = None, overscan = None\<rparr>
        True initialWorld))
      (scrollEvent
        \<lparr>itemHeight = None, elementsQuantity = 3, getItemKey = (\<lambda>i. i),
         estimateItemHeight = Some (\<lambda>_. 16), scrollingDelay = None, overscan = None\<rparr>
        (snd (isScrollingEffect
           \<lparr>itemHeight = None, elementsQuantity = 3, getItemKey = (\<lambda>i. i),
            estimateItemHeight = Some (\<lambda>_. 16), scrollingDelay = None, overscan = None\<rparr>
           True initialWorld)))) = [(1, 150)]
   \<and> firedTimers
     (advance 150
       (runCleanup (fst (isScrollingEffect
        \<lparr>itemHeight = None, elementsQuantity = 3, getItemKey = (\<lambda>i. i),
         estimateItemHeight = Some (\<lambda>_. 16), scrollingDelay = None, overscan = None\<rparr>
        True initialWorld))
      (scrollEvent
        \<lparr>itemHeight = None, elementsQuantity = 3, getItemKey = (\<lambda>i. i),
         estimateItemHeight = Some (\<lambda>_. 16), scrollingDelay = None, overscan = None\<rparr>
        (snd (isScrollingEffect
           \<lparr>itemHeight = None, elementsQuantity = 3, getItemKey = (\<lambda>i. i),
            estimateItemHeight = Some (\<lambda>_. 16), scrollingDelay = None, overscan = None\<rparr>
           True initialWorld))))) = [(1, 150)]"
  by code_simp

text \<open>
  Claim C9, amended. The cleanup of the effect removes the scroll listener from the scroll
  element, so that no later scroll notification reaches the handler, and does nothing
  else: the pending timers are as they were, and each still runs its callback when it is
  due. With no scroll element the effect changes nothing and returns no cleanup.
\<close>

theorem teardown_removes_listener_only:
  "isScrollingEffect props False w = (NoCleanup, w)
   \<and> runCleanup NoCleanup w = w
   \<and> fst (isScrollingEffect props True w) = RemoveScrollListener
   \<and> scrollListener (snd (isScrollingEffect props True w)) = True
   \<and> pendingTimers (snd (isScrollingEffect props True w)) = pendingTimers w
   \<and> scrollListener (runCleanup RemoveScrollListener w) = False
   \<and> scrollEvent props (runCleanup RemoveScrollListener w) = runCleanup RemoveScrollListener w
   \<and> pendingTimers (runCleanup c w) = pendingTimers w
   \<and> firedTimers (advance d (runCleanup c w)) =
       firedTimers w @ filter (\<lambda>(i, dueTime). dueTime \<le> now w + d) (pendingTimers w)"
  by (cases c) (simp_all add: isScrollingEffect_def runCleanup_def scrollEvent_def advance_def Let_def)

section \<open>Further properties\<close>

subsection \<open>The debounce of the isScrolling flag\<close>

lemma handleScroll_sole_timer:
  assumes "\<forall>p \<in> set (pendingTimers w). timeoutId w = Some (fst p) \<and> fst p \<noteq> 0"
  shows "pendingTimers (handleScroll props w) = [(nextTimerId w, now w + SCROLLING_DELAY)]"
proof -
  have "(case timeoutId w of
           None \<Rightarrow> pendingTimers w
         | Some tid \<Rightarrow> if tid \<noteq> 0 then filter (\<lambda>(i, dueTime). i \<noteq> tid) (pendingTimers w)
                       else pendingTimers w) = []"
  proof (cases "timeoutId w")
    case None
    then have "pendingTimers w = []" using assms by (cases "pendingTimers w") auto
    then show ?thesis using None by simp
  next
    case (Some tid)
    show ?thesis
    proof (cases "pendingTimers w = []")
      case True
      then show ?thesis using Some by simp
    next
      case False
      then obtain p where "p \<in> set (pendingTimers w)" by (cases "pendingTimers w") auto
      then have "tid \<noteq> 0" using assms Some by auto
      moreover have "filter (\<lambda>(i, dueTime). i \<noteq> tid) (pendingTimers w) = []"
        using assms Some by (auto simp: filter_empty_conv)
      ultimately show ?thesis using Some by simp
    qed
  qed
  then show ?thesis by (simp add: handleScroll_fields)
qed

text \<open>
  When every pending timer is the one the closure remembers, a scroll notification sets
  the flag and leaves exactly one timer pending, due \<open>SCROLLING_DELAY\<close> after the
  notification: the remembered timer is cleared before the new one is set.
\<close>

lemma handleScroll_single_timer:
  assumes "\<forall>p \<in> set (pendingTimers w). timeoutId w = Some (fst p) \<and> fst p \<noteq> 0"
  shows "pendingTimers (handleScroll props w) = [(nextTimerId w, now w + SCROLLING_DELAY)]
       \<and> isScrolling (handleScroll props w) = True
       \<and> timeoutId (handleScroll props w) = Some (nextTimerId w)"
  using handleScroll_sole_timer[OF assms] by (simp add: handleScroll_fields)

theorem handleScroll_single_timer_witness:
  "pendingTimers
     (handleScroll
        \<lparr>itemHeight = None, elementsQuantity = 3, getItemKey = (\<lambda>i. i),
         estimateItemHeight = Some (\<lambda>_. 16), scrollingDelay = None, overscan = None\<rparr>
        initialWorld) = [(1, 150)]
   \<and> timeoutId
     (handleScroll
        \<lparr>itemHeight = None, elementsQuantity = 3, getItemKey = (\<lambda>i. i),
         estimateItemHeight = Some (\<lambda>_. 16), scrollingDelay = None, overscan = None\<rparr>
        initialWorld) = Some 1
   \<and> pendingTimers
     (handleScroll
        \<lparr>itemHeight = None, elementsQuantity = 3, getItemKey = (\<lambda>i. i),
         estimateItemHeight = Some (\<lambda>_. 16), scrollingDelay = None, overscan = None\<rparr>
        (advance 100
          (handleScroll
            \<lparr>itemHeight = None, elementsQuantity = 3, getItemKey = (\<lambda>i. i),
             estimateItemHeight = Some (\<lambda>_. 16), scrollingDelay = None, overscan = None\<rparr>
            initialWorld))) = [(2, 250)]"
proof -
  let ?p = "\<lparr>itemHeight = None, elementsQuantity = 3, getItemKey = (\<lambda>i. i),
         estimateItemHeight = Some (\<lambda>_. 16::real), scrollingDelay = None, overscan = None\<rparr>"
  let ?w = "advance 100 (handleScroll ?p initialWorld)"
  have a: "pendingTimers (handleScroll ?p initialWorld) = [(1, 150)]"
      "timeoutId (handleScroll ?p initialWorld) = Some 1"
    by code_simp+
  have w: "pendingTimers ?w = [(1, 150)]" "timeoutId ?w = Some 1" "nextTimerId ?w = 2" "now ?w = 100"
    by code_simp+
  have "\<forall>p \<in> set (pendingTimers ?w). timeoutId ?w = Some (fst p) \<and> fst p \<noteq> 0"
    by (simp add: w)
  from handleScroll_single_timer[OF this, of ?p]
  have "pendingTimers (handleScroll ?p ?w) = [(2, 250)]"
    by (simp add: w SCROLLING_DELAY_def)
  then show ?thesis using a by simp
qed

text \<open>
  After a scroll notification the flag stays true for as long as less than
  \<open>SCROLLING_DELAY\<close> has passed without another notification, and is false from then on.
\<close>

lemma isScrolling_after_quiet_period:
  assumes "\<forall>p \<in> set (pendingTimers w). timeoutId w = Some (fst p) \<and> fst p \<noteq> 0"
  shows "isScrolling (advance d (handleScroll props w)) = (d < SCROLLING_DELAY)"
proof -
  have t: "pendingTimers (handleScroll props w) = [(nextTimerId w, now w + SCROLLING_DELAY)]"
      "isScrolling (handleScroll props w) = True"
    using handleScroll_sole_timer[OF assms] by (simp_all add: handleScroll_fields)
  have n: "now (handleScroll props w) = now w" by (simp add: handleScroll_fields)
  show ?thesis
    by (auto simp: advance_def Let_def t n)
qed

theorem isScrolling_after_quiet_period_witness:
  "pendingTimers
     (handleScroll
        \<lparr>itemHeight = None, elementsQuantity = 3, getItemKey = (\<lambda>i. i),
         estimateItemHeight = Some (\<lambda>_. 16), scrollingDelay = None, overscan = None\<rparr>
        initialWorld) = [(1, 150)]
   \<and> isScrolling
     (advance 149
        (handleScroll
           \<lparr>itemHeight = None, elementsQuantity = 3, getItemKey = (\<lambda>i. i),
            estimateItemHeight = Some (\<lambda>_. 16), scrollingDelay = None, overscan = None\<rparr>
           (handleScroll
              \<lparr>itemHeight = None, elementsQuantity = 3, getItemKey = (\<lambda>i. i),
               estimateItemHeight = Some (\<lambda>_. 16), scrollingDelay = None, overscan = None\<rparr>
              initialWorld))) = True
   \<and> isScrolling
     (advance 150
        (handleScroll
           \<lparr>itemHeight = None, elementsQuantity = 3, getItemKey = (\<lambda>i. i),
            estimateItemHeight = Some (\<lambda>_. 16), scrollingDelay = None, overscan = None\<rparr>
           (handleScroll
              \<lparr>itemHeight = None, elementsQuantity = 3, getItemKey = (\<lambda>i. i),
               estimateItemHeight = Some (\<lambda>_. 16), scrollingDelay = None, overscan = None\<rparr>
              initialWorld))) = False"
proof -
  let ?p = "\<lparr>itemHeight = None, elementsQuantity = 3, getItemKey = (\<lambda>i. i),
         estimateItemHeight = Some (\<lambda>_. 16::real), scrollingDelay = None, overscan = None\<rparr>"
  let ?w = "handleScroll ?p initialWorld"
  have w: "pendingTimers ?w = [(1, 150)]" "timeoutId ?w = Some 1"
    by code_simp+
  have inv: "\<forall>p \<in> set (pendingTimers ?w). timeoutId ?w = Some (fst p) \<and> fst p \<noteq> 0"
    by (simp add: w)
  show ?thesis
    using isScrolling_after_quiet_period[OF inv, of 149 ?p]
      isScrolling_after_quiet_period[OF inv, of 150 ?p] w
    by (simp add: SCROLLING_DELAY_def)
qed

text \<open>
  When the effect runs again (a dependency changed), the new closure starts with no
  remembered timer: a timer set under the old closure stays pending beside the new one.
\<close>

lemma effect_rerun_keeps_old_timer:
  "pendingTimers
     (scrollEvent
        \<lparr>itemHeight = None, elementsQuantity = 3, getItemKey = (\<lambda>i. i),
         estimateItemHeight = Some (\<lambda>_. 16), scrollingDelay = None, overscan = None\<rparr>
        (snd (isScrollingEffect
           \<lparr>itemHeight = None, elementsQuantity = 3, getItemKey = (\<lambda>i. i),
            estimateItemHeight = Some (\<lambda>_. 16), scrollingDelay = None, overscan = None\<rparr>
           True
           (runCleanup RemoveScrollListener
              (scrollEvent
                 \<lparr>itemHeight = None, elementsQuantity = 3, getItemKey = (\<lambda>i. i),
                  estimateItemHeight = Some (\<lambda>_. 16), scrollingDelay = None,
                  overscan = None\<rparr>
                 (snd (isScrollingEffect
                    \<lparr>itemHeight = None, elementsQuantity = 3, getItemKey = (\<lambda>i. i),
                     estimateItemHeight = Some (\<lambda>_. 16), scrollingDelay = None,
                     overscan = None\<rparr>
                    True initialWorld)))))))
   = [(1, 150), (2, 150)]"
  by code_simp

subsection \<open>The empty list\<close>

text \<open>
  With no rows the loop body never runs: both indices keep the sentinel, the total height
  is zero and no row is handed to the host.
\<close>

lemma empty_list_range:
  assumes "validateProps props = Inr ()" and "elementsQuantity props = 0"
  shows "useFixedSizeList props s =
           Inr \<lparr>startIndex = -1, endIndex = -1, totalHeight = 0, virtualItems = []\<rparr>"
  using assms
  by (simp add: useFixedSizeList_def compute_range_def range_pass_def pass_loop.simps
      initial_pass_def js_slice_def Let_def)

theorem empty_list_range_witness:
  "validateProps
     \<lparr>itemHeight = None, elementsQuantity = 0, getItemKey = (\<lambda>i. i),
      estimateItemHeight = Some (\<lambda>_. 16), scrollingDelay = None, overscan = None\<rparr> = Inr ()
   \<and> useFixedSizeList
       \<lparr>itemHeight = None, elementsQuantity = 0, getItemKey = (\<lambda>i. i),
        estimateItemHeight = Some (\<lambda>_. 16), scrollingDelay = None, overscan = None\<rparr>
       (initialWorld\<lparr>listHeight := 600\<rparr>)
     = Inr \<lparr>startIndex = -1, endIndex = -1, totalHeight = 0, virtualItems = []\<rparr>"
proof -
  let ?p = "\<lparr>itemHeight = None, elementsQuantity = 0, getItemKey = (\<lambda>i. i),
      estimateItemHeight = Some (\<lambda>_. 16::real), scrollingDelay = None, overscan = None\<rparr>"
  have v: "validateProps ?p = Inr ()" by (simp add: validateProps_def)
  show ?thesis using v empty_list_range[OF v, of "initialWorld\<lparr>listHeight := 600\<rparr>"] by simp
qed

subsection \<open>The range of the fixed-size hook\<close>

text \<open>
  The fixed-size hook clamps its end index at the length of the list, not at the last
  index: with ten items of height 35 it returns the end index 10 and hands the host an
  item with id 10, one past the last item of the list.
\<close>

lemma useFixedListSize_end_past_list:
  "map_option summary (useFixedListSize 35 10 (Some 3) 10 0 None) = Some (0, 10, 350)
   \<and> map_option (\<lambda>r. map itemId (fixedItems r)) (useFixedListSize 35 10 (Some 3) 10 0 None)
       = Some [0, 1, 2, 3, 4, 5, 6, 7, 8, 9, 10]"
proof -
  have r: "round ((0 + 35 * 35) / (35::real)) = 35" "round (0 / (35::real)) = 0"
    by (simp_all add: round_def floor_eq_iff)
  have u: "[0..10] = [0, 1, 2, 3, 4, 5, 6, 7, 8, 9, 10::int]" by code_simp
  show ?thesis
    by (simp add: useFixedListSize_def fixedRange_def whole_below_def Let_def r summary_def u)
qed

subsection \<open>The sentinel for a viewport past the content\<close>

theorem endIndex_sentinel_past_content_witness:
  "getItemHeight
     \<lparr>itemHeight = None, elementsQuantity = 3, getItemKey = (\<lambda>i. i),
      estimateItemHeight = Some (\<lambda>_. 16), scrollingDelay = None, overscan = None\<rparr>
     Map.empty 2 = Inr 16
   \<and> (0::real) \<le> 16 \<and> (0::int) \<le> 3 \<and> (\<Sum>j<(3::nat). (16::real)) < 0 + 600
   \<and> (\<exists>res. compute_range
         \<lparr>itemHeight = None, elementsQuantity = 3, getItemKey = (\<lambda>i. i),
          estimateItemHeight = Some (\<lambda>_. 16), scrollingDelay = None, overscan = None\<rparr>
         (initialWorld\<lparr>listHeight := 600\<rparr>) = Inr res
        \<and> endIndex res = -1 \<and> virtualItems res = [])"
proof -
  let ?p = "\<lparr>itemHeight = None, elementsQuantity = 3, getItemKey = (\<lambda>i. i),
      estimateItemHeight = Some (\<lambda>_. 16::real), scrollingDelay = None, overscan = None\<rparr>"
  let ?s = "initialWorld\<lparr>listHeight := 600\<rparr>"
  have g: "getItemHeight ?p (measurementCache ?s) (int j) = Inr 16" for j
    by (simp add: getItemHeight_def initialWorld_def)
  have ov: "0 \<le> the_overscan ?p" by (simp add: the_overscan_def DEFAULT_OVERSCAN_def)
  have lt: "(\<Sum>j<elementsQuantity ?p. (16::real)) < scrollTop ?s + listHeight ?s"
    by (simp add: initialWorld_def)
  have "\<exists>res. compute_range ?p ?s = Inr res \<and> endIndex res = -1 \<and> virtualItems res = []"
    using endIndex_sentinel_past_content[of ?p ?s "\<lambda>_. 16", OF g _ ov lt] by simp
  moreover have "getItemHeight ?p Map.empty 2 = Inr 16" by (simp add: getItemHeight_def)
  ultimately show ?thesis by simp
qed

end
